theory Spec2Isabelle
  imports Complex_Main "HOL-Library.Sublist" "HOL-Library.List_Lexorder" "HOL-Library.Char_ord"
begin

section \<open>Card records and Python values\<close>

text \<open>
  The exceptions the modelled code can raise. A function that can raise returns
  \<open>py_error + 'a\<close>, with \<open>Inl\<close> for the exception.
\<close>

datatype py_error =
  KeyError | TypeError | IndexError | AttributeError | ValueError
  | FileNotFoundError | BadZipFile | RequestException

text \<open>
  One entry of \<open>card_faces\<close>: a dict whose keys \<open>name\<close> and \<open>artist\<close> may be
  absent (\<open>None\<close> is an absent key).
\<close>

record face_dict =
  f_name :: "string option"
  f_artist :: "string option"

text \<open>
  The card dict \<open>c\<close> (Scryfall JSON). Every key the code reads is a field; \<open>None\<close> is
  an absent key, so that \<open>c.get(k, default)\<close> and \<open>c[k]\<close> (which raises
  \<open>KeyError\<close>) can both be written out.
\<close>

record card_dict =
  d_name :: "string option"
  d_set :: "string option"
  d_set_name :: "string option"
  d_set_type :: "string option"
  d_collector_number :: "string option"
  d_cn :: "string option"
  d_artist :: "string option"
  d_frame :: "string option"
  d_layout :: "string option"
  d_border_color :: "string option"
  d_frame_effects :: "string list option"
  d_type_line :: "string option"
  d_keywords :: "string list option"
  d_card_faces :: "face_dict list option"

text \<open>\<open>d.get(key, default)\<close> on an optional field.\<close>

definition get_or :: "'a option \<Rightarrow> 'a \<Rightarrow> 'a" where
  "get_or v dflt = (case v of None \<Rightarrow> dflt | Some x \<Rightarrow> x)"

text \<open>Python's \<open>a in b\<close> on two strings: \<open>a\<close> occurs in \<open>b\<close> as a contiguous substring.\<close>

definition str_in :: "string \<Rightarrow> string \<Rightarrow> bool" where
  "str_in a b = sublist a b"

subsection \<open>Strings and paths\<close>

text \<open>
  Strings are byte lists (UTF-8): lengths and slices count bytes, which are Python's
  characters on ASCII text. \<open>s.replace(old, new)\<close> replaces every occurrence of
  \<open>old\<close>, scanning from the left without overlap; with an empty \<open>old\<close> Python puts
  \<open>new\<close> before the first character and after each one.
\<close>

fun replace_scan :: "string \<Rightarrow> string \<Rightarrow> string \<Rightarrow> string" where
  "replace_scan [] old new = []"
| "replace_scan (c # cs) old new =
     (if old \<noteq> [] \<and> prefix old (c # cs)
      then new @ replace_scan (drop (length old) (c # cs)) old new
      else c # replace_scan cs old new)"

definition str_replace :: "string \<Rightarrow> string \<Rightarrow> string \<Rightarrow> string" where
  "str_replace s old new =
     (if old = [] then new @ concat (map (\<lambda>c. c # new) s) else replace_scan s old new)"

text \<open>Truthiness of a string, and of an optional string (\<open>None\<close> and \<open>""\<close> are false).\<close>

definition truthy :: "string \<Rightarrow> bool" where
  "truthy s = (s \<noteq> [])"

definition truthy_opt :: "string option \<Rightarrow> bool" where
  "truthy_opt v = (case v of None \<Rightarrow> False | Some s \<Rightarrow> truthy s)"

text \<open>\<open>str(i)\<close> for a non-negative integer: its decimal digits.\<close>

definition digit_char :: "nat \<Rightarrow> char" where
  "digit_char d = ''0123456789'' ! d"

fun str_of_nat :: "nat \<Rightarrow> string" where
  "str_of_nat n =
     (if n < 10 then [digit_char n] else str_of_nat (n div 10) @ [digit_char (n mod 10)])"

declare str_of_nat.simps [simp del]

text \<open>
  \<open>char.isdigit()\<close> on the ASCII digits, and \<open>int(s)\<close> on a string of ASCII digits
  (\<open>ValueError\<close> on the empty string). Collector numbers are ASCII digits with
  optional letters or symbols around them.
\<close>

definition isdigit :: "char \<Rightarrow> bool" where
  "isdigit ch = (ch \<in> set ''0123456789'')"

definition digit_val :: "char \<Rightarrow> nat" where
  "digit_val ch = (of_char ch - 48)"

definition int_of_digits :: "string \<Rightarrow> py_error + nat" where
  "int_of_digits s =
     (if s = [] then Inl ValueError else Inr (foldl (\<lambda>acc ch. 10 * acc + digit_val ch) 0 s))"



definition path_join :: "string \<Rightarrow> string \<Rightarrow> string" where
  "path_join a b =
     (if prefix ''/'' b then b
      else if a = [] \<or> suffix ''/'' a then a @ b
      else a @ ''/'' @ b)"


subsection \<open>Collaborators\<close>

text \<open>
  What BeautifulSoup's queries return on the pages the code scrapes. A table cell has
  its text and its first \<open><a>\<close> descendant: \<open>None\<close> when there is none, \<open>Some None\<close>
  when it has no \<open>href\<close>. A parsed page answers the three queries the code makes:
  \<open>soup.find("td", {"width": "170", "align": "center"})\<close>, the listing rows (each the
  list of its \<open>td\<close> cells), and the \<open>src\<close> attributes of the art images.
\<close>

record td_cell =
  td_text :: string
  td_a :: "string option option"

record soup =
  set_td :: "td_cell option"
  listing_rows :: "td_cell list list"
  art_imgs :: "string option list"

text \<open>
  The functions the code imports and does not define: the fetch helpers of
  \<open>src/fetch.py\<close> (\<open>get_mtgp_page\<close> gives the page text or \<open>None\<close>, the image
  downloads say whether they succeeded), \<open>requests.get\<close> (which raises on a network
  failure), the HTML parser, \<open>unidecode\<close>, \<open>str.lower\<close> and \<open>str.upper\<close>,
  \<open>SequenceMatcher(a, b).ratio()\<close>, \<open>sanitize_filename\<close>, and the element that
  iterating over a \<open>set\<close> yields first (sets are unordered: the runtime decides).
\<close>

record env =
  get_mtgp_page :: "string \<Rightarrow> string option"
  requests_get :: "string \<Rightarrow> py_error + string"
  BeautifulSoup :: "string \<Rightarrow> soup"
  unidecode :: "string \<Rightarrow> string"
  str_lower :: "string \<Rightarrow> string"
  str_upper :: "string \<Rightarrow> string"
  SequenceMatcher_ratio :: "string \<Rightarrow> string \<Rightarrow> real"
  sanitize_filename :: "string \<Rightarrow> string"
  set_iter_first :: "string set \<Rightarrow> string option"
  get_mtgp_image :: "string \<Rightarrow> string \<Rightarrow> bool"
  get_scryfall_image :: "string \<Rightarrow> string \<Rightarrow> bool"

text \<open>
  The configuration module \<open>src/settings.py\<close> and the table \<open>con.promo_sets\<close> of
  \<open>src/constants.py\<close>, as the values the code reads from them.
\<close>

record cfg =
  replace_sets :: "string \<rightharpoonup> string"
  promo_sets :: "string set"
  naming :: string
  cfg_overwrite :: bool
  cfg_only_scryfall :: bool
  cfg_download_scryfall :: bool

text \<open>\<open>BeautifulSoup(r, "html.parser")\<close> on an optional page: \<open>TypeError\<close> on \<open>None\<close>.\<close>

definition parse_page :: "env \<Rightarrow> string option \<Rightarrow> py_error + soup" where
  "parse_page e r = (case r of None \<Rightarrow> Inl TypeError | Some html \<Rightarrow> Inr (BeautifulSoup e html))"

section \<open>Classification (card.py, \<open>get_card_class\<close>)\<close>

text \<open>The card classes of card.py; \<open>Card\<close> is the class of a normal card.\<close>

datatype card_class =
  Card | Transform | MDFC | Adventure | Leveler | Saga | Planar | Meld | Class
  | Split | Flip | Token | Reversible | Planeswalker | Mutate | Land | BasicLand

definition class_map :: "string \<rightharpoonup> card_class" where
  "class_map = map_of
    [(''normal'', Card),
     (''transform'', Transform),
     (''modal_dfc'', MDFC),
     (''adventure'', Adventure),
     (''leveler'', Leveler),
     (''saga'', Saga),
     (''planar'', Planar),
     (''meld'', Meld),
     (''class'', Class),
     (''split'', Split),
     (''flip'', Flip),
     (''token'', Token),
     (''reversible_card'', Reversible)]"

text \<open>
  \<open>"Mutate" in c.get("keywords", "")\<close>: membership in the keyword list, and a substring
  test on the default \<open>""\<close> (which fails) when the key is absent.
\<close>

definition has_mutate :: "card_dict \<Rightarrow> bool" where
  "has_mutate c = (case d_keywords c of None \<Rightarrow> str_in ''Mutate'' '''' | Some ks \<Rightarrow> ''Mutate'' \<in> set ks)"

text \<open>\<open>"card_faces" not in c\<close>.\<close>

definition no_card_faces :: "card_dict \<Rightarrow> bool" where
  "no_card_faces c = (d_card_faces c = None)"

definition get_card_class :: "card_dict \<Rightarrow> card_class" where
  "get_card_class c =
    (if str_in ''Planeswalker'' (get_or (d_type_line c) '''') \<and> no_card_faces c then Planeswalker
     else if str_in ''Saga'' (get_or (d_type_line c) '''') \<and> no_card_faces c then Saga
     else if has_mutate c then Mutate
     else if str_in ''Land'' (get_or (d_type_line c) '''') \<and> no_card_faces c then
       (if str_in ''Basic Land'' (get_or (d_type_line c) '''') then BasicLand else Land)
     else get_or (class_map (get_or (d_layout c) ''normal'')) Card)"

section \<open>Path template (card.py, \<open>Card.get_template\<close>)\<close>

definition Card_layout :: "card_dict \<Rightarrow> string" where
  "Card_layout c = get_or (d_layout c) ''''"

definition Card_border_color :: "card_dict \<Rightarrow> string" where
  "Card_border_color c = get_or (d_border_color c) ''''"

definition Card_frame :: "card_dict \<Rightarrow> string" where
  "Card_frame c = get_or (d_frame c) ''''"

definition Card_frame_effects :: "card_dict \<Rightarrow> string list" where
  "Card_frame_effects c = get_or (d_frame_effects c) []"

text \<open>
  \<open>matches = set(array1) & set(array2); return next(iter(matches), None)\<close>: the
  intersection is a set, and what comes first when iterating over it is the runtime's
  choice.
\<close>

definition find_first_match :: "env \<Rightarrow> string list \<Rightarrow> string list \<Rightarrow> string option" where
  "find_first_match e array1 array2 = set_iter_first e (set array1 \<inter> set array2)"

definition template_effects :: "string list" where
  "template_effects =
     [''enchantment'', ''miracle'', ''colorshifted'', ''extendedart'', ''etched'', ''snow'']"

definition get_template :: "env \<Rightarrow> card_dict \<Rightarrow> string" where
  "get_template e c =
     (if Card_layout c = ''token'' then ''token''
      else if Card_border_color c = ''borderless'' then ''borderless''
      else if Card_frame c \<in> {''1993'', ''1995''} then ''classic''
      else if truthy_opt (find_first_match e (Card_frame_effects c) template_effects)
        then the (find_first_match e (Card_frame_effects c) template_effects)
      else ''normal'')"

text \<open>
  Iterating over a (finite) set yields its members: nothing for the empty set, and
  otherwise a member of the set. This is all Python promises of \<open>next(iter(s), None)\<close>.
\<close>

definition set_iter_ok :: "env \<Rightarrow> bool" where
  "set_iter_ok e =
     (\<forall>S. finite S \<longrightarrow>
        (S = {} \<longrightarrow> set_iter_first e S = None)
        \<and> (S \<noteq> {} \<longrightarrow> (\<exists>x \<in> S. set_iter_first e S = Some x)))"

text \<open>The first element of a list that belongs to another list, in the first list's order.\<close>

definition first_in_order :: "string list \<Rightarrow> string list \<Rightarrow> string option" where
  "first_in_order array1 array2 = find (\<lambda>x. x \<in> set array2) array1"

section \<open>Face disambiguation (core.py, \<open>get_card_face\<close>)\<close>




text \<open>\<open>xs[i]\<close> on a list: \<open>IndexError\<close> out of range.\<close>

definition index :: "'a list \<Rightarrow> nat \<Rightarrow> py_error + 'a" where
  "index xs i = (if i < length xs then Inr (xs ! i) else Inl IndexError)"



section \<open>Card objects (card.py, class \<open>Card\<close> and its subclasses)\<close>

text \<open>Sequencing of computations that can raise: the first exception wins.\<close>

definition bind_sum :: "'e + 'a \<Rightarrow> ('a \<Rightarrow> 'e + 'b) \<Rightarrow> 'e + 'b" where
  "bind_sum m f = (case m of Inl err \<Rightarrow> Inl err | Inr x \<Rightarrow> f x)"

text \<open>
  A card object: its class, the dict \<open>self.c\<close>, the flag \<open>self._promo\<close> (which
  \<open>__init__\<close> sets to \<open>False\<close>) and the values that \<open>cached_property\<close> has stored so
  far (\<open>None\<close> before the first read).
\<close>

record card_obj =
  obj_class :: card_class
  obj_c :: card_dict
  obj_promo :: bool
  obj_mtgp_set :: "string option"
  obj_mtgp_code :: "string option"

definition new_card :: "card_class \<Rightarrow> card_dict \<Rightarrow> card_obj" where
  "new_card cls c =
     \<lparr>obj_class = cls, obj_c = c, obj_promo = False, obj_mtgp_set = None, obj_mtgp_code = None\<rparr>"

definition Card_set :: "card_dict \<Rightarrow> string" where
  "Card_set c = get_or (d_set c) ''''"

definition Card_name :: "card_dict \<Rightarrow> string" where
  "Card_name c = get_or (d_name c) ''''"


definition Card_number :: "card_dict \<Rightarrow> string" where
  "Card_number c = get_or (d_collector_number c) ''''"

definition Card_set_name :: "card_dict \<Rightarrow> string" where
  "Card_set_name c = get_or (d_set_name c) ''''"

definition Card_set_type :: "card_dict \<Rightarrow> string" where
  "Card_set_type c = get_or (d_set_type c) ''''"

text \<open>
  \<open>self.c["card_faces"][i][key]\<close>: \<open>KeyError\<close> without \<open>card_faces\<close>, \<open>IndexError\<close>
  when the list is too short, \<open>KeyError\<close> when the face lacks the key.
\<close>

definition face_field :: "card_dict \<Rightarrow> nat \<Rightarrow> (face_dict \<Rightarrow> string option) \<Rightarrow> py_error + string" where
  "face_field c i key =
     (case d_card_faces c of
        None \<Rightarrow> Inl KeyError
      | Some faces \<Rightarrow>
          bind_sum (index faces i)
            (\<lambda>face. case key face of None \<Rightarrow> Inl KeyError | Some v \<Rightarrow> Inr v))"

text \<open>The classes that inherit from \<open>MDFC\<close>, which overrides \<open>name\<close> and \<open>artist\<close>.\<close>

definition is_MDFC :: "card_class \<Rightarrow> bool" where
  "is_MDFC cls = (cls \<in> {MDFC, Split, Transform, Reversible})"

definition name :: "card_class \<Rightarrow> card_dict \<Rightarrow> py_error + string" where
  "name cls c = (if is_MDFC cls then face_field c 0 f_name else Inr (Card_name c))"



section \<open>Set mapping (card.py, \<open>Card.mtgp_set\<close> and \<open>Card.promo\<close>)\<close>

text \<open>
  The body of the property \<open>mtgp_set\<close>. It returns the set code and the object as the
  body leaves it: the assignments \<open>self.promo = True\<close> go through the setter, which
  writes \<open>self._promo\<close>.
\<close>

definition mtgp_set_body :: "cfg \<Rightarrow> env \<Rightarrow> card_obj \<Rightarrow> string \<times> card_obj" where
  "mtgp_set_body g e self =
     (let c = obj_c self;
          mtgp_set = (if Card_set c \<in> dom (replace_sets g)
                      then the (replace_sets g (Card_set c)) else Card_set c)
      in if mtgp_set \<in> promo_sets g then (mtgp_set, self\<lparr>obj_promo := True\<rparr>)
         else if str_in ''Alchemy'' (Card_set_name c) then (''a22'', self\<lparr>obj_promo := True\<rparr>)
         else if str_in ''Judge Gift'' (Card_set_name c) \<or> mtgp_set = ''dci''
           then (''dci'', self\<lparr>obj_promo := True\<rparr>)
         else if Card_set_name c \<in> {''Legacy Championship'', ''Vintage Championship''}
           then (''uni'', self\<lparr>obj_promo := True\<rparr>)
         else if Card_set_type c \<in> {''funny'', ''promo''} then
           (if truthy_opt (get_mtgp_page e (''https://www.mtgpics.com/card?ref='' @ mtgp_set @ ''001''))
            then (mtgp_set, self)
            else (''pmo'', self\<lparr>obj_promo := True\<rparr>))
         else (mtgp_set, self))"

text \<open>
  Reading \<open>self.mtgp_set\<close>: a \<open>cached_property\<close> runs the body on the first read and
  stores the value in the object; later reads return the stored value.
\<close>

definition mtgp_set :: "cfg \<Rightarrow> env \<Rightarrow> card_obj \<Rightarrow> string \<times> card_obj" where
  "mtgp_set g e self =
     (case obj_mtgp_set self of
        Some v \<Rightarrow> (v, self)
      | None \<Rightarrow>
          (let (v, self') = mtgp_set_body g e self in (v, self'\<lparr>obj_mtgp_set := Some v\<rparr>)))"

text \<open>Reading \<open>self.promo\<close> returns \<open>self._promo\<close>.\<close>

definition promo :: "card_obj \<Rightarrow> bool" where
  "promo self = obj_promo self"

section \<open>Reference codes (core.py, \<open>get_mtgp_code\<close> and \<open>get_mtgp_code_pmo\<close>)\<close>

text \<open>
  \<open>except (KeyError, TypeError, IndexError, AttributeError): pass\<close> followed by
  \<open>return None\<close>: the four exceptions become the result \<open>None\<close>, any other one
  propagates.
\<close>

definition except_pass :: "py_error + 'a option \<Rightarrow> py_error + 'a option" where
  "except_pass r =
     (case r of
        Inl err \<Rightarrow>
          if err \<in> {KeyError, TypeError, IndexError, AttributeError} then Inr None else Inl err
      | Inr v \<Rightarrow> Inr v)"







text \<open>A match of the promotional search: the dict with keys \<open>code\<close> and \<open>match\<close>.\<close>

record match_dict =
  m_code :: string
  m_match :: real

definition promo_url :: "string \<Rightarrow> string" where
  "promo_url promo_code =
     (if promo_code = ''dci'' then ''https://mtgpics.com/set_checklist?set=18''
      else if promo_code = ''a22'' then ''https://mtgpics.com/set_checklist?set=375''
      else if promo_code = ''uni'' then ''https://mtgpics.com/set_checklist?set=201''
      else ''https://mtgpics.com/set_checklist?set=72'')"

text \<open>The row test of the promotional search; \<open>cols[6]\<close> is read first.\<close>

definition promo_row_matches :: "env \<Rightarrow> string \<Rightarrow> string \<Rightarrow> td_cell list \<Rightarrow> py_error + bool" where
  "promo_row_matches e nm art cols =
     bind_sum (index cols 6) (\<lambda>col6.
       if str_in art (unidecode e (td_text col6)) then
         bind_sum (index cols 2) (\<lambda>col2. Inr (str_in (str_lower e nm) (str_lower e (td_text col2))))
       else Inr False)"

text \<open>The dict appended for a matching row; \<open>.get\<close> on a missing anchor raises.\<close>

definition promo_row_match :: "env \<Rightarrow> string \<Rightarrow> string \<Rightarrow> td_cell list \<Rightarrow> py_error + match_dict" where
  "promo_row_match e nm set_nm cols =
     bind_sum (index cols 2) (\<lambda>col2.
       case td_a col2 of
         None \<Rightarrow> Inl AttributeError
       | Some href \<Rightarrow>
           Inr \<lparr>m_code = str_replace (get_or href '''') ''card?ref='' '''',
                m_match = SequenceMatcher_ratio e (str_replace (td_text col2) nm '''') set_nm\<rparr>)"

fun collect_matches ::
  "env \<Rightarrow> string \<Rightarrow> string \<Rightarrow> string \<Rightarrow> td_cell list list \<Rightarrow> match_dict list
    \<Rightarrow> py_error + match_dict list" where
  "collect_matches e nm art set_nm [] matches = Inr matches"
| "collect_matches e nm art set_nm (cols # rows) matches =
     bind_sum (promo_row_matches e nm art cols) (\<lambda>hit.
       if hit then
         bind_sum (promo_row_match e nm set_nm cols)
           (\<lambda>m. collect_matches e nm art set_nm rows (matches @ [m]))
       else collect_matches e nm art set_nm rows matches)"

text \<open>
  \<open>sorted(matches, key=lambda i: i["match"], reverse=True)\<close>: a stable sort in
  descending order of the key, so that matches with equal keys keep their order.
\<close>

definition sorted_reverse :: "match_dict list \<Rightarrow> match_dict list" where
  "sorted_reverse matches = sort_key (\<lambda>i. - m_match i) matches"

definition get_mtgp_code_pmo_try ::
  "env \<Rightarrow> string \<Rightarrow> string \<Rightarrow> string \<Rightarrow> string \<Rightarrow> py_error + string option" where
  "get_mtgp_code_pmo_try e nm art set_nm promo_code =
     bind_sum (parse_page e (get_mtgp_page e (promo_url promo_code))) (\<lambda>soup1.
       bind_sum (collect_matches e nm art set_nm (listing_rows soup1) []) (\<lambda>matches.
         bind_sum (index (sorted_reverse matches) 0) (\<lambda>best. Inr (Some (m_code best)))))"

definition get_mtgp_code_pmo ::
  "env \<Rightarrow> string \<Rightarrow> string \<Rightarrow> string \<Rightarrow> string \<Rightarrow> py_error + string option" where
  "get_mtgp_code_pmo e nm art set_nm promo_code =
     except_pass (get_mtgp_code_pmo_try e nm art set_nm promo_code)"

section \<open>The card's reference code and image links (card.py)\<close>





section \<open>Logging (core.py) and downloads (card.py, \<open>Card.download\<close> and \<open>MDFC.download\<close>)\<close>

text \<open>
  What the program leaves behind: the lines printed on the console (by kind, without the
  colour codes) and the lines appended to each log file under \<open>logs/\<close>.
\<close>

datatype console_line = MTGP_DONE string | SCRYFALL string | FAILED string string

record world =
  console :: "console_line list"
  logs :: "string \<Rightarrow> string list"

definition log_mtgp :: "string \<Rightarrow> world \<Rightarrow> world" where
  "log_mtgp label w = w\<lparr>console := console w @ [MTGP_DONE label]\<rparr>"

definition log_scryfall :: "string \<Rightarrow> world \<Rightarrow> world" where
  "log_scryfall label w = w\<lparr>console := console w @ [SCRYFALL label]\<rparr>"

text \<open>
  \<open>log_failed(label, print_out=True, write_log=True, filename="failed", action="MTGP")\<close>:
  the label is appended to the log file when \<open>write_log\<close> holds, and the failure is
  printed when \<open>print_out\<close> holds.
\<close>

definition log_failed :: "string \<Rightarrow> bool \<Rightarrow> bool \<Rightarrow> string \<Rightarrow> string \<Rightarrow> world \<Rightarrow> world" where
  "log_failed label print_out write_log filename action w =
     (let w1 = (if write_log then w\<lparr>logs := (logs w)(filename := logs w filename @ [label])\<rparr> else w)
      in if print_out then w1\<lparr>console := console w1 @ [FAILED action label]\<rparr> else w1)"

definition download_mtgp :: "env \<Rightarrow> string option \<Rightarrow> string \<Rightarrow> string \<Rightarrow> world \<Rightarrow> bool \<times> world" where
  "download_mtgp e url path label w =
     (if truthy_opt url \<and> truthy path then
        (if get_mtgp_image e (the url) path then (True, log_mtgp label w) else (False, w))
      else (False, w))"

definition download_scryfall :: "env \<Rightarrow> string \<Rightarrow> string \<Rightarrow> string \<Rightarrow> world \<Rightarrow> bool \<times> world" where
  "download_scryfall e url path label w =
     (if truthy url \<and> truthy path then
        (if get_scryfall_image e url path then (True, log_scryfall label w) else (False, w))
      else (False, w))"

text \<open>
  The attributes of a single-face card that \<open>download\<close> reads, as the values they
  evaluate to, and a download result \<open>(success, label, path)\<close>.
\<close>

record card_props =
  p_label :: string
  p_mtgp_url :: "string option"
  p_mtgp_path :: string
  p_scry_url :: string
  p_scry_path :: string

type_synonym download_result = "bool \<times> string \<times> string"

definition Card_download ::
  "cfg \<Rightarrow> env \<Rightarrow> card_props \<Rightarrow> bool \<Rightarrow> world \<Rightarrow> download_result list \<times> world" where
  "Card_download g e self logging w =
     (if cfg_only_scryfall g then
        (case download_scryfall e (p_scry_url self) (p_scry_path self) (p_label self) w of
           (True, w1) \<Rightarrow> ([(True, p_label self, p_scry_path self)], w1)
         | (False, w1) \<Rightarrow>
             ([(False, p_label self, p_scry_path self)],
              log_failed (p_label self) True True ''failed'' ''SCRY'' w1))
      else
        (case download_mtgp e (p_mtgp_url self) (p_mtgp_path self) (p_label self) w of
           (True, w1) \<Rightarrow> ([(True, p_label self, p_mtgp_path self)], w1)
         | (False, w1) \<Rightarrow>
             (if cfg_download_scryfall g then
                (case download_scryfall e (p_scry_url self) (p_scry_path self) (p_label self) w1 of
                   (True, w2) \<Rightarrow>
                     ([(False, p_label self, p_scry_path self)],
                      if logging then log_failed (p_label self) False True ''failed'' ''MTGP'' w2
                      else w2)
                 | (False, w2) \<Rightarrow>
                     ([(False, p_label self, p_scry_path self)],
                      if logging then log_failed (p_label self) True True ''failed'' ''MTGP'' w2
                      else w2))
              else
                ([(False, p_label self, p_scry_path self)],
                 if logging then log_failed (p_label self) True True ''failed'' ''MTGP'' w1
                 else w1))))"

text \<open>
  The attributes of a multi-face card that \<open>download\<close> reads: lists indexed by face.
\<close>

record mdfc_props =
  p_labels :: "string list"
  p_mtgp_urls :: "string option list"
  p_mtgp_paths :: "string list"
  p_scry_urls :: "string list"
  p_scry_paths :: "string list"

text \<open>One iteration of the loop of \<open>MDFC.download\<close> that tries MTGP first.\<close>

definition MDFC_face ::
  "cfg \<Rightarrow> env \<Rightarrow> mdfc_props \<Rightarrow> bool \<Rightarrow> nat \<Rightarrow> string \<Rightarrow> world
    \<Rightarrow> (py_error + download_result) \<times> world" where
  "MDFC_face g e self logging i scry_url w =
     (case bind_sum (index (p_mtgp_urls self) i) (\<lambda>url.
             bind_sum (index (p_mtgp_paths self) i) (\<lambda>path.
               bind_sum (index (p_labels self) i) (\<lambda>label. Inr (url, path, label)))) of
        Inl err \<Rightarrow> (Inl err, w)
      | Inr (url, path, label) \<Rightarrow>
          (case download_mtgp e url path label w of
             (True, w1) \<Rightarrow> (Inr (True, label, path), w1)
           | (False, w1) \<Rightarrow>
               (if cfg_download_scryfall g then
                  (case index (p_scry_paths self) i of
                     Inl err \<Rightarrow> (Inl err, w1)
                   | Inr scry_path \<Rightarrow>
                       (case download_scryfall e scry_url scry_path label w1 of
                          (True, w2) \<Rightarrow>
                            (Inr (False, label, path),
                             log_failed label False True ''failed'' ''MTGP'' w2)
                        | (False, w2) \<Rightarrow>
                            (Inr (False, label, path),
                             if logging then log_failed label True True ''failed'' ''MTGP'' w2
                             else w2)))
                else
                  (Inr (False, label, path),
                   if logging then log_failed label True True ''failed'' ''MTGP'' w1 else w1))))"

text \<open>One iteration of the loop that downloads from Scryfall only.\<close>

definition MDFC_face_scry ::
  "env \<Rightarrow> mdfc_props \<Rightarrow> bool \<Rightarrow> nat \<Rightarrow> string \<Rightarrow> world
    \<Rightarrow> (py_error + download_result) \<times> world" where
  "MDFC_face_scry e self logging i scry_url w =
     (case bind_sum (index (p_scry_paths self) i) (\<lambda>path.
             bind_sum (index (p_labels self) i) (\<lambda>label. Inr (path, label))) of
        Inl err \<Rightarrow> (Inl err, w)
      | Inr (path, label) \<Rightarrow>
          (case download_scryfall e scry_url path label w of
             (result, w1) \<Rightarrow>
               (Inr (result, label, path),
                if \<not> result \<and> logging then log_failed label True True ''failed'' ''SCRY'' w1
                else w1)))"

text \<open>
  \<open>for i, scry_url in enumerate(self.scry_urls)\<close> with a loop body \<open>step\<close>: the results
  are appended in order, and an exception ends the loop, leaving what was logged so far.
\<close>

fun for_faces ::
  "(nat \<Rightarrow> string \<Rightarrow> world \<Rightarrow> (py_error + download_result) \<times> world)
    \<Rightarrow> (nat \<times> string) list \<Rightarrow> download_result list \<Rightarrow> world
    \<Rightarrow> (py_error + download_result list) \<times> world" where
  "for_faces step [] results w = (Inr results, w)"
| "for_faces step ((i, scry_url) # rest) results w =
     (case step i scry_url w of
        (Inl err, w1) \<Rightarrow> (Inl err, w1)
      | (Inr r, w1) \<Rightarrow> for_faces step rest (results @ [r]) w1)"

definition enumerate_list :: "'a list \<Rightarrow> (nat \<times> 'a) list" where
  "enumerate_list xs = zip [0..<length xs] xs"

definition MDFC_download ::
  "cfg \<Rightarrow> env \<Rightarrow> mdfc_props \<Rightarrow> bool \<Rightarrow> world \<Rightarrow> (py_error + download_result list) \<times> world" where
  "MDFC_download g e self logging w =
     (if cfg_only_scryfall g
      then for_faces (MDFC_face_scry e self logging) (enumerate_list (p_scry_urls self)) [] w
      else for_faces (MDFC_face g e self logging) (enumerate_list (p_scry_urls self)) [] w)"

section \<open>Destination paths (card.py, \<open>generate_path\<close> and \<open>check_path\<close>)\<close>

text \<open>
  \<open>check_path\<close>: the files that exist are the set \<open>files\<close>
  (\<open>os.path.isfile\<close>). The loop may run for ever, so it is a partial function:
  \<open>None\<close> is a loop that does not end.
\<close>

partial_function (option) check_path_loop ::
  "string set \<Rightarrow> string \<Rightarrow> nat \<Rightarrow> string \<Rightarrow> string option" where
  "check_path_loop files path i current_path =
     (if current_path \<in> files
      then check_path_loop files path (i + 1)
             (str_replace path ''.jpg'' ('' ('' @ str_of_nat (i + 1) @ '').jpg''))
      else Some current_path)"

definition check_path :: "string set \<Rightarrow> string \<Rightarrow> string option" where
  "check_path files path = check_path_loop files path 0 path"

definition naming_convention ::
  "cfg \<Rightarrow> env \<Rightarrow> string \<Rightarrow> string \<Rightarrow> string \<Rightarrow> string \<Rightarrow> string" where
  "naming_convention g e card_name card_artist card_set card_number =
     sanitize_filename e
       (str_replace
         (str_replace
           (str_replace (str_replace (naming g) ''NAME'' card_name) ''ARTIST'' card_artist)
           ''SET'' card_set)
         ''NUMBER'' card_number)"

definition generate_path ::
  "cfg \<Rightarrow> env \<Rightarrow> string set \<Rightarrow> card_dict \<Rightarrow> string \<Rightarrow> string \<Rightarrow> string \<Rightarrow> string option" where
  "generate_path g e files c path nm art =
     (let filename = naming_convention g e nm art (str_upper e (Card_set c)) (Card_number c);
          path1 = path_join path (filename @ ''.jpg'')
      in if \<not> cfg_overwrite g then check_path files path1 else Some path1)"

text \<open>The name tried at the \<open>i\<close>-th turn of the loop of \<open>check_path\<close>.\<close>

definition numbered :: "string \<Rightarrow> nat \<Rightarrow> string" where
  "numbered path i =
     (if i = 0 then path else str_replace path ''.jpg'' ('' ('' @ str_of_nat i @ '').jpg''))"

section \<open>The archive filter (core.py, \<open>filter_files_from_zip\<close>)\<close>





text \<open>
  \<open>getattr(obj, "name_saved", None)\<close> and \<open>getattr(obj, "name_back", None)\<close>: the
  attribute exists for Adventure and Flip, respectively for the classes that inherit from
  \<open>MDFC\<close>; reading it can raise \<open>KeyError\<close> or \<open>IndexError\<close>, which \<open>getattr\<close> does
  not catch.
\<close>

definition getattr_name_saved :: "card_class \<Rightarrow> card_dict \<Rightarrow> py_error + string option" where
  "getattr_name_saved cls c =
     (if cls \<in> {Adventure, Flip}
      then bind_sum (face_field c 0 f_name) (\<lambda>n. Inr (Some n))
      else Inr None)"

definition getattr_name_back :: "card_class \<Rightarrow> card_dict \<Rightarrow> py_error + string option" where
  "getattr_name_back cls c =
     (if is_MDFC cls
      then bind_sum (face_field c 1 f_name) (\<lambda>n. Inr (Some n))
      else Inr None)"

text \<open>
  The list \<open>renders\<close> of \<open>is_card_in_zip\<close>. Building the card object three times also
  creates the download folders, which has no part in the result and is left out.
\<close>

definition renders :: "card_dict \<Rightarrow> py_error + string list" where
  "renders c =
     (let card_class = get_card_class c
      in bind_sum (getattr_name_saved card_class c) (\<lambda>name_saved.
           bind_sum (if truthy_opt name_saved then Inr (the name_saved) else name card_class c)
             (\<lambda>nm.
               bind_sum (getattr_name_back card_class c) (\<lambda>name_back.
                 if truthy_opt name_back then
                   (case d_layout c of
                      None \<Rightarrow> Inl KeyError
                    | Some layout \<Rightarrow>
                        if layout \<noteq> ''adventure'' then Inr [nm, the name_back] else Inr [nm])
                 else Inr [nm]))))"







section \<open>Notions of the claims about the promotional search\<close>

text \<open>
  The words of the specification about a listing row of the promotional search, to
  compare the code with: a row qualifies when its artist text (cell 6, transliterated)
  contains the artist and its name cell (cell 2) contains the card name, both lowered;
  its score is the similarity of the name cell without the card name to the set's name;
  its reference code is the link of the name cell without \<open>card?ref=\<close>.
\<close>

definition row_qualifies :: "env \<Rightarrow> string \<Rightarrow> string \<Rightarrow> td_cell list \<Rightarrow> bool" where
  "row_qualifies e nm art cols =
     (str_in art (unidecode e (td_text (cols ! 6)))
      \<and> str_in (str_lower e nm) (str_lower e (td_text (cols ! 2))))"

definition row_score :: "env \<Rightarrow> string \<Rightarrow> string \<Rightarrow> td_cell list \<Rightarrow> real" where
  "row_score e nm set_nm cols =
     SequenceMatcher_ratio e (str_replace (td_text (cols ! 2)) nm '''') set_nm"

definition row_code :: "td_cell list \<Rightarrow> string" where
  "row_code cols = str_replace (get_or (the (td_a (cols ! 2))) '''') ''card?ref='' ''''"

text \<open>
  A row the search can read: it has the seven cells, and its name cell has a link when
  the row qualifies.
\<close>

definition row_readable :: "env \<Rightarrow> string \<Rightarrow> string \<Rightarrow> td_cell list \<Rightarrow> bool" where
  "row_readable e nm art cols =
     (7 \<le> length cols \<and> (row_qualifies e nm art cols \<longrightarrow> td_a (cols ! 2) \<noteq> None))"

section \<open>Notions of the claims about the set listing search\<close>



section \<open>Example values\<close>

text \<open>A card dict with no keys, to build examples from.\<close>

definition card0 :: card_dict where
  "card0 = \<lparr>d_name = None, d_set = None, d_set_name = None, d_set_type = None,
     d_collector_number = None, d_cn = None, d_artist = None, d_frame = None, d_layout = None,
     d_border_color = None, d_frame_effects = None, d_type_line = None, d_keywords = None,
     d_card_faces = None\<rparr>"

text \<open>
  A configuration and collaborators for the examples: no set override, one promotional
  set code, the network down (no page, \<open>requests.get\<close> raises, no image), and library
  functions taken as the identity; an example that needs more of one of them sets that
  field (\<open>env_upper\<close> below upper-cases ASCII letters).
\<close>

definition cfg0 :: cfg where
  "cfg0 = \<lparr>replace_sets = Map.empty, promo_sets = {''pmo''}, naming = ''NAME (ARTIST) [SET] {NUMBER}'',
     cfg_overwrite = False, cfg_only_scryfall = False, cfg_download_scryfall = True\<rparr>"

definition env0 :: env where
  "env0 = \<lparr>get_mtgp_page = (\<lambda>url. None), requests_get = (\<lambda>url. Inl RequestException),
     BeautifulSoup = (\<lambda>html. \<lparr>set_td = None, listing_rows = [], art_imgs = []\<rparr>),
     unidecode = (\<lambda>s. s), str_lower = (\<lambda>s. s), str_upper = (\<lambda>s. s),
     SequenceMatcher_ratio = (\<lambda>a b. 0), sanitize_filename = (\<lambda>s. s),
     set_iter_first = (\<lambda>S. None), get_mtgp_image = (\<lambda>url path. False),
     get_scryfall_image = (\<lambda>url path. False)\<rparr>"

definition alchemy_card :: card_dict where
  "alchemy_card = card0\<lparr>d_set := Some ''ymid'', d_set_name := Some ''Alchemy: Innistrad''\<rparr>"


text \<open>
  Collaborators under which iterating over a set of strings starts at its least member
  (one of the orders a run can have).
\<close>

definition env_sorted :: env where
  "env_sorted = env0\<lparr>set_iter_first := (\<lambda>S. if S = {} \<or> infinite S then None else Some (Min S))\<rparr>"

definition snow_etched_card :: card_dict where
  "snow_etched_card = card0\<lparr>d_layout := Some ''normal'', d_border_color := Some ''black'',
     d_frame := Some ''2015'', d_frame_effects := Some [''snow'', ''etched'']\<rparr>"

text \<open>Listing rows of seven cells, and collaborators that serve a promotional listing.\<close>

definition plain_cell :: "string \<Rightarrow> td_cell" where
  "plain_cell t = \<lparr>td_text = t, td_a = None\<rparr>"

definition link_cell :: "string \<Rightarrow> string \<Rightarrow> td_cell" where
  "link_cell t href = \<lparr>td_text = t, td_a = Some (Some href)\<rparr>"

definition listing_row :: "string \<Rightarrow> string \<Rightarrow> string \<Rightarrow> string \<Rightarrow> td_cell list" where
  "listing_row num nm href art =
     [plain_cell num, plain_cell '''', link_cell nm href, plain_cell '''', plain_cell '''',
      plain_cell '''', plain_cell art]"

definition promo_rows :: "td_cell list list" where
  "promo_rows =
     [listing_row ''1'' ''Bolt A'' ''card?ref=aaa1'' ''Ann'',
      listing_row ''2'' ''Shock B'' ''card?ref=sss0'' ''Ann'',
      listing_row ''3'' ''Bolt B'' ''card?ref=bbb2'' ''Ann'',
      listing_row ''4'' ''Bolt B'' ''card?ref=ccc3'' ''Ann'']"

definition env_promo :: env where
  "env_promo = env0\<lparr>
     get_mtgp_page := (\<lambda>url. if url = promo_url ''dci'' then Some ''<html>'' else None),
     BeautifulSoup := (\<lambda>html. \<lparr>set_td = None, listing_rows = promo_rows, art_imgs = []\<rparr>),
     SequenceMatcher_ratio := (\<lambda>a b. if a = b then 1 else 0)\<rparr>"



text \<open>
  Collaborators under which MTGP has no image and Scryfall has every image, an empty
  console and log, and the attributes of a single-face and of a two-face card.
\<close>

definition env_fallback :: env where
  "env_fallback = env0\<lparr>get_scryfall_image := (\<lambda>url path. True)\<rparr>"

definition world0 :: world where
  "world0 = \<lparr>console = [], logs = (\<lambda>filename. [])\<rparr>"

definition opt_props :: card_props where
  "opt_props = \<lparr>p_label = ''Opt (DOM) 60'', p_mtgp_url = None,
     p_mtgp_path = ''mtgp/normal/Opt.jpg'', p_scry_url = ''https://scry/opt.jpg'',
     p_scry_path = ''scry/normal/Opt.jpg''\<rparr>"

definition agadeem_props :: mdfc_props where
  "agadeem_props = \<lparr>p_labels = [''Agadeem's Awakening (ZNR) 90'', ''Agadeem, the Undercrypt (ZNR) 90''],
     p_mtgp_urls = [None, None],
     p_mtgp_paths = [''mtgp/front.jpg'', ''mtgp/back.jpg''],
     p_scry_urls = [''https://scry/front.jpg'', ''https://scry/back.jpg''],
     p_scry_paths = [''scry/front.jpg'', ''scry/back.jpg'']\<rparr>"

text \<open>A configuration whose naming template is the card name alone.\<close>

definition cfg_name :: cfg where
  "cfg_name = cfg0\<lparr>naming := ''NAME''\<rparr>"

section \<open>Notions of the claims about the archive filter\<close>





section \<open>Example values for the archive filter\<close>






section \<open>Theorems\<close>

subsection \<open>C1: classification priority\<close>

lemma class_map_dom:
  "dom class_map = {''normal'', ''transform'', ''modal_dfc'', ''adventure'', ''leveler'',
     ''saga'', ''planar'', ''meld'', ''class'', ''split'', ''flip'', ''token'', ''reversible_card''}"
  unfolding class_map_def by (simp add: dom_map_of_conv_image_fst insert_commute)

text \<open>
  C1. Classification follows the priority order, first match winning: a type line
  containing "Planeswalker" and no \<open>card_faces\<close> key gives Planeswalker; else a type line
  containing "Saga" and no \<open>card_faces\<close> key gives Saga; else keywords containing "Mutate"
  give Mutate; else a type line containing "Land" and no \<open>card_faces\<close> key gives
  BasicLand when it contains "Basic Land" and Land otherwise; else the layout tag selects
  the class, an absent or unrecognised layout giving the normal class \<open>Card\<close>. The
  class is a function of the record alone: any record that agrees on the type line, the
  keywords, the presence of \<open>card_faces\<close> and the layout gets the same class.
\<close>

theorem get_card_class_priority:
  "(let t = get_or (d_type_line c) '''';
        pw = (str_in ''Planeswalker'' t \<and> d_card_faces c = None);
        sg = (str_in ''Saga'' t \<and> d_card_faces c = None);
        mu = (\<exists>ks. d_keywords c = Some ks \<and> ''Mutate'' \<in> set ks);
        ld = (str_in ''Land'' t \<and> d_card_faces c = None)
    in (pw \<longrightarrow> get_card_class c = Planeswalker)
     \<and> (\<not> pw \<and> sg \<longrightarrow> get_card_class c = Saga)
     \<and> (\<not> pw \<and> \<not> sg \<and> mu \<longrightarrow> get_card_class c = Mutate)
     \<and> (\<not> pw \<and> \<not> sg \<and> \<not> mu \<and> ld \<and> str_in ''Basic Land'' t \<longrightarrow> get_card_class c = BasicLand)
     \<and> (\<not> pw \<and> \<not> sg \<and> \<not> mu \<and> ld \<and> \<not> str_in ''Basic Land'' t \<longrightarrow> get_card_class c = Land)
     \<and> (\<not> pw \<and> \<not> sg \<and> \<not> mu \<and> \<not> ld \<longrightarrow>
          get_card_class c =
            (case d_layout c of
               None \<Rightarrow> Card
             | Some l \<Rightarrow>
                 if l = ''normal'' then Card
                 else if l = ''transform'' then Transform
                 else if l = ''modal_dfc'' then MDFC
                 else if l = ''adventure'' then Adventure
                 else if l = ''leveler'' then Leveler
                 else if l = ''saga'' then Saga
                 else if l = ''planar'' then Planar
                 else if l = ''meld'' then Meld
                 else if l = ''class'' then Class
                 else if l = ''split'' then Split
                 else if l = ''flip'' then Flip
                 else if l = ''token'' then Token
                 else if l = ''reversible_card'' then Reversible
                 else Card)))
   \<and> (\<forall>c'. d_type_line c' = d_type_line c \<and> d_keywords c' = d_keywords c
          \<and> (d_card_faces c' = None \<longleftrightarrow> d_card_faces c = None) \<and> d_layout c' = d_layout c
        \<longrightarrow> get_card_class c' = get_card_class c)"
proof -
  have mu: "has_mutate c \<longleftrightarrow> (\<exists>ks. d_keywords c = Some ks \<and> ''Mutate'' \<in> set ks)"
    by (simp add: has_mutate_def str_in_def split: option.splits)
  have lay: "get_or (class_map (get_or (d_layout c) ''normal'')) Card =
      (case d_layout c of
               None \<Rightarrow> Card
             | Some l \<Rightarrow>
                 if l = ''normal'' then Card
                 else if l = ''transform'' then Transform
                 else if l = ''modal_dfc'' then MDFC
                 else if l = ''adventure'' then Adventure
                 else if l = ''leveler'' then Leveler
                 else if l = ''saga'' then Saga
                 else if l = ''planar'' then Planar
                 else if l = ''meld'' then Meld
                 else if l = ''class'' then Class
                 else if l = ''split'' then Split
                 else if l = ''flip'' then Flip
                 else if l = ''token'' then Token
                 else if l = ''reversible_card'' then Reversible
                 else Card)"
    by (simp add: get_or_def class_map_def split: option.splits)
  have frame: "get_card_class c' = get_card_class c"
    if "d_type_line c' = d_type_line c" "d_keywords c' = d_keywords c"
       "d_card_faces c' = None \<longleftrightarrow> d_card_faces c = None" "d_layout c' = d_layout c" for c'
    using that by (simp add: get_card_class_def has_mutate_def no_card_faces_def)
  let ?t = "get_or (d_type_line c) []"
  have r1: "get_card_class c = Planeswalker"
    if "str_in ''Planeswalker'' ?t \<and> d_card_faces c = None"
    using that
    by (cases "d_card_faces c"; cases "str_in ''Planeswalker'' ?t";
        cases "str_in ''Saga'' ?t"; cases "str_in ''Land'' ?t")
       (simp_all add: get_card_class_def no_card_faces_def)
  have r2: "get_card_class c = Saga"
    if "\<not> (str_in ''Planeswalker'' ?t \<and> d_card_faces c = None)"
       "str_in ''Saga'' ?t \<and> d_card_faces c = None"
    using that
    by (cases "d_card_faces c"; cases "str_in ''Planeswalker'' ?t";
        cases "str_in ''Saga'' ?t"; cases "str_in ''Land'' ?t")
       (simp_all add: get_card_class_def no_card_faces_def)
  have r3: "get_card_class c = Mutate"
    if "\<not> (str_in ''Planeswalker'' ?t \<and> d_card_faces c = None)"
       "\<not> (str_in ''Saga'' ?t \<and> d_card_faces c = None)" "has_mutate c"
    using that
    by (cases "d_card_faces c"; cases "str_in ''Planeswalker'' ?t";
        cases "str_in ''Saga'' ?t"; cases "str_in ''Land'' ?t")
       (simp_all add: get_card_class_def no_card_faces_def)
  have r4: "get_card_class c = BasicLand"
    if "\<not> (str_in ''Planeswalker'' ?t \<and> d_card_faces c = None)"
       "\<not> (str_in ''Saga'' ?t \<and> d_card_faces c = None)" "\<not> has_mutate c"
       "str_in ''Land'' ?t \<and> d_card_faces c = None" "str_in ''Basic Land'' ?t"
    using that
    by (cases "d_card_faces c"; cases "str_in ''Planeswalker'' ?t";
        cases "str_in ''Saga'' ?t"; cases "str_in ''Land'' ?t")
       (simp_all add: get_card_class_def no_card_faces_def)
  have r4b: "get_card_class c = Land"
    if "\<not> (str_in ''Planeswalker'' ?t \<and> d_card_faces c = None)"
       "\<not> (str_in ''Saga'' ?t \<and> d_card_faces c = None)" "\<not> has_mutate c"
       "str_in ''Land'' ?t \<and> d_card_faces c = None" "\<not> str_in ''Basic Land'' ?t"
    using that
    by (cases "d_card_faces c"; cases "str_in ''Planeswalker'' ?t";
        cases "str_in ''Saga'' ?t"; cases "str_in ''Land'' ?t")
       (simp_all add: get_card_class_def no_card_faces_def)
  have r5: "get_card_class c = get_or (class_map (get_or (d_layout c) ''normal'')) Card"
    if "\<not> (str_in ''Planeswalker'' ?t \<and> d_card_faces c = None)"
       "\<not> (str_in ''Saga'' ?t \<and> d_card_faces c = None)" "\<not> has_mutate c"
       "\<not> (str_in ''Land'' ?t \<and> d_card_faces c = None)"
    using that
    by (cases "d_card_faces c"; cases "str_in ''Planeswalker'' ?t";
        cases "str_in ''Saga'' ?t"; cases "str_in ''Land'' ?t")
       (simp_all add: get_card_class_def no_card_faces_def)
  have c1: "str_in ''Planeswalker'' ?t \<and> d_card_faces c = None \<longrightarrow> get_card_class c = Planeswalker"
    using r1 by blast
  have c2: "\<not> (str_in ''Planeswalker'' ?t \<and> d_card_faces c = None) \<and>
    (str_in ''Saga'' ?t \<and> d_card_faces c = None) \<longrightarrow> get_card_class c = Saga"
    using r2 by blast
  have c3: "\<not> (str_in ''Planeswalker'' ?t \<and> d_card_faces c = None) \<and>
    \<not> (str_in ''Saga'' ?t \<and> d_card_faces c = None) \<and>
    (\<exists>ks. d_keywords c = Some ks \<and> ''Mutate'' \<in> set ks) \<longrightarrow> get_card_class c = Mutate"
    using r3 unfolding mu by blast
  have c4: "\<not> (str_in ''Planeswalker'' ?t \<and> d_card_faces c = None) \<and>
    \<not> (str_in ''Saga'' ?t \<and> d_card_faces c = None) \<and>
    \<not> (\<exists>ks. d_keywords c = Some ks \<and> ''Mutate'' \<in> set ks) \<and>
    (str_in ''Land'' ?t \<and> d_card_faces c = None) \<and> str_in ''Basic Land'' ?t
    \<longrightarrow> get_card_class c = BasicLand"
    using r4 unfolding mu by blast
  have c5: "\<not> (str_in ''Planeswalker'' ?t \<and> d_card_faces c = None) \<and>
    \<not> (str_in ''Saga'' ?t \<and> d_card_faces c = None) \<and>
    \<not> (\<exists>ks. d_keywords c = Some ks \<and> ''Mutate'' \<in> set ks) \<and>
    (str_in ''Land'' ?t \<and> d_card_faces c = None) \<and> \<not> str_in ''Basic Land'' ?t
    \<longrightarrow> get_card_class c = Land"
    using r4b unfolding mu by blast
  have c6: "\<not> (str_in ''Planeswalker'' ?t \<and> d_card_faces c = None) \<and>
    \<not> (str_in ''Saga'' ?t \<and> d_card_faces c = None) \<and>
    \<not> (\<exists>ks. d_keywords c = Some ks \<and> ''Mutate'' \<in> set ks) \<and>
    \<not> (str_in ''Land'' ?t \<and> d_card_faces c = None)
    \<longrightarrow> get_card_class c = get_or (class_map (get_or (d_layout c) ''normal'')) Card"
    using r5 unfolding mu by blast
  have c7: "\<forall>c'. d_type_line c' = d_type_line c \<and> d_keywords c' = d_keywords c
          \<and> (d_card_faces c' = None \<longleftrightarrow> d_card_faces c = None) \<and> d_layout c' = d_layout c
        \<longrightarrow> get_card_class c' = get_card_class c"
    by (intro allI impI, elim conjE, rule frame)
  show ?thesis
    unfolding Let_def 
    apply (intro conjI)
    apply (rule c1)
    apply (rule c2)
    apply (rule c3)
    apply (rule c4)
    apply (rule c5)
    apply (rule c6 [unfolded lay])
    apply (rule c7)
    done
qed

theorem get_card_class_priority_witness:
  "get_card_class (card0\<lparr>d_type_line := Some ''Legendary Planeswalker - Jace''\<rparr>) = Planeswalker
   \<and> get_card_class (card0\<lparr>d_type_line := Some ''Basic Land - Forest'',
        d_layout := Some ''normal''\<rparr>) = BasicLand
   \<and> get_card_class (card0\<lparr>d_type_line := Some ''Creature - Elf'', d_layout := Some ''transform'',
        d_card_faces := Some []\<rparr>) = Transform"
proof -
  have a: "get_card_class (card0\<lparr>d_type_line := Some ''Legendary Planeswalker - Jace''\<rparr>)
      = Planeswalker"
    using get_card_class_priority
      [of "card0\<lparr>d_type_line := Some ''Legendary Planeswalker - Jace''\<rparr>"]
    by (simp add: Let_def card0_def get_or_def str_in_def sublist_code)
  have b: "get_card_class (card0\<lparr>d_type_line := Some ''Basic Land - Forest'',
      d_layout := Some ''normal''\<rparr>) = BasicLand"
    using get_card_class_priority
      [of "card0\<lparr>d_type_line := Some ''Basic Land - Forest'', d_layout := Some ''normal''\<rparr>"]
    by (simp add: Let_def card0_def get_or_def str_in_def sublist_code)
  have c: "get_card_class (card0\<lparr>d_type_line := Some ''Creature - Elf'',
      d_layout := Some ''transform'', d_card_faces := Some []\<rparr>) = Transform"
    using get_card_class_priority
      [of "card0\<lparr>d_type_line := Some ''Creature - Elf'', d_layout := Some ''transform'',
        d_card_faces := Some []\<rparr>"]
    by (simp add: Let_def card0_def get_or_def str_in_def sublist_code)
  show ?thesis using a b c by (simp only: simp_thms)
qed

subsection \<open>C2: face disambiguation\<close>
















subsection \<open>C3: what reading the set code writes\<close>

lemma mtgp_set_body_frame:
  "mtgp_set_body g e self = (v, self') \<Longrightarrow>
   obj_c self' = obj_c self \<and> obj_class self' = obj_class self
   \<and> obj_mtgp_set self' = obj_mtgp_set self \<and> obj_mtgp_code self' = obj_mtgp_code self
   \<and> (obj_promo self \<longrightarrow> obj_promo self')"
  unfolding mtgp_set_body_def Let_def
  by (auto split: if_splits)


lemma mtgp_set_body_promo:
  "obj_promo (snd (mtgp_set_body g e self)) =
     (obj_promo self \<or>
      (let c = obj_c self;
           mapped = (if Card_set c \<in> dom (replace_sets g)
                     then the (replace_sets g (Card_set c)) else Card_set c)
       in mapped \<in> promo_sets g
          \<or> str_in ''Alchemy'' (Card_set_name c)
          \<or> str_in ''Judge Gift'' (Card_set_name c) \<or> mapped = ''dci''
          \<or> Card_set_name c \<in> {''Legacy Championship'', ''Vintage Championship''}
          \<or> (Card_set_type c \<in> {''funny'', ''promo''}
              \<and> \<not> truthy_opt (get_mtgp_page e (''https://www.mtgpics.com/card?ref='' @ mapped @ ''001'')))))"
  unfolding mtgp_set_body_def Let_def
  by (simp split: if_splits)

text \<open>
  C3 (as amended). Reading \<open>mtgp_set\<close> writes to the card object. The first read stores
  the set code for later reads and sets the promotional flag when the set resolves as
  promotional (a code of the promotional table, an Alchemy or Judge Gift set name, the
  code \<open>dci\<close>, a championship set name, or a funny or promo set with no page on the
  site); it never clears the flag, and it leaves the card dict, the class and the stored
  reference code as they are. Every later read returns the stored code and changes
  nothing. Reading \<open>promo\<close> returns the flag and writes nothing.
\<close>

theorem mtgp_set_read_effect:
  "(let (v, self') = mtgp_set g e self;
        c = obj_c self;
        mapped = (if Card_set c \<in> dom (replace_sets g)
                  then the (replace_sets g (Card_set c)) else Card_set c);
        promotional =
          (mapped \<in> promo_sets g
           \<or> str_in ''Alchemy'' (Card_set_name c)
           \<or> str_in ''Judge Gift'' (Card_set_name c) \<or> mapped = ''dci''
           \<or> Card_set_name c \<in> {''Legacy Championship'', ''Vintage Championship''}
           \<or> (Card_set_type c \<in> {''funny'', ''promo''}
               \<and> \<not> truthy_opt (get_mtgp_page e (''https://www.mtgpics.com/card?ref='' @ mapped @ ''001''))))
    in obj_c self' = obj_c self \<and> obj_class self' = obj_class self
       \<and> obj_mtgp_code self' = obj_mtgp_code self
       \<and> obj_mtgp_set self' = Some v
       \<and> (obj_mtgp_set self = None \<longrightarrow> promo self' = (promo self \<or> promotional))
       \<and> (obj_mtgp_set self \<noteq> None \<longrightarrow> self' = self)
       \<and> mtgp_set g e self' = (v, self'))"
proof (cases "obj_mtgp_set self")
  case None
  obtain v s1 where b: "mtgp_set_body g e self = (v, s1)"
    by (cases "mtgp_set_body g e self")
  have r: "mtgp_set g e self = (v, s1\<lparr>obj_mtgp_set := Some v\<rparr>)"
    by (simp add: mtgp_set_def None b)
  have again: "mtgp_set g e (s1\<lparr>obj_mtgp_set := Some v\<rparr>) = (v, s1\<lparr>obj_mtgp_set := Some v\<rparr>)"
    by (simp add: mtgp_set_def)
  have p: "obj_promo (snd (mtgp_set_body g e self)) = obj_promo s1"
    by (simp add: b)
  show ?thesis
    using mtgp_set_body_frame [OF b] None again mtgp_set_body_promo [of g e self]
    unfolding p by (simp add: r Let_def promo_def)
next
  case (Some v)
  then show ?thesis by (simp add: mtgp_set_def Let_def)
qed

text \<open>
  A card of an Alchemy set is not promotional when it is built, and is after one read of
  its set code: the read has changed the flag.
\<close>

theorem mtgp_set_read_counterexample:
  "promo (new_card Card alchemy_card) = False
   \<and> promo (snd (mtgp_set cfg0 env0 (new_card Card alchemy_card))) = True"
  by (simp add: promo_def new_card_def mtgp_set_def mtgp_set_body_def Let_def alchemy_card_def
      card0_def cfg0_def Card_set_def Card_set_name_def get_or_def str_in_def sublist_code(3))

theorem mtgp_set_read_effect_witness:
  "mtgp_set cfg0 env0 (new_card Card alchemy_card) =
     (''a22'', (new_card Card alchemy_card)\<lparr>obj_promo := True, obj_mtgp_set := Some ''a22''\<rparr>)"
proof -
  have v: "fst (mtgp_set cfg0 env0 (new_card Card alchemy_card)) = ''a22''"
    by (simp add: promo_def new_card_def mtgp_set_def mtgp_set_body_def Let_def alchemy_card_def
      card0_def cfg0_def Card_set_def Card_set_name_def get_or_def str_in_def sublist_code(3))
  obtain s1 where s1: "mtgp_set cfg0 env0 (new_card Card alchemy_card) = (''a22'', s1)"
    using v by (cases "mtgp_set cfg0 env0 (new_card Card alchemy_card)") auto
  have al: "str_in ''Alchemy'' (Card_set_name alchemy_card)"
    by (simp add: alchemy_card_def card0_def Card_set_name_def get_or_def str_in_def sublist_code(3))
  have "obj_c s1 = alchemy_card \<and> obj_class s1 = Card \<and> obj_mtgp_code s1 = None
      \<and> obj_mtgp_set s1 = Some ''a22'' \<and> obj_promo s1"
    using mtgp_set_read_effect [of cfg0 env0 "new_card Card alchemy_card"] al
    unfolding s1 by (simp add: Let_def new_card_def promo_def)
  then have "s1 = (new_card Card alchemy_card)\<lparr>obj_promo := True, obj_mtgp_set := Some ''a22''\<rparr>"
    by (simp add: new_card_def)
  with s1 show ?thesis by simp
qed

subsection \<open>C4: failures during reference resolution and image scraping\<close>





lemma index_raises: "index xs i = Inl err \<Longrightarrow> err = IndexError"
  by (simp add: index_def split: if_splits)







lemma collect_matches_raises:
  "collect_matches e nm art set_nm rows matches = Inl err \<Longrightarrow> err \<in> {IndexError, AttributeError}"
proof (induction rows arbitrary: matches)
  case Nil
  then show ?case by simp
next
  case (Cons cols rows)
  then show ?case
    by (auto simp: bind_sum_def promo_row_matches_def promo_row_match_def
        split: sum.splits if_splits option.splits dest: index_raises)
qed





subsection \<open>C5: the path template\<close>

text \<open>
  What holds of the template: the three earlier checks take precedence in their order,
  and after them the template is a tag common to the frame effects and the template
  tags, or \<open>normal\<close> when there is none.
\<close>

lemma get_template_precedence:
  "(Card_layout c = ''token'' \<longrightarrow> get_template e c = ''token'')
   \<and> (Card_layout c \<noteq> ''token'' \<and> Card_border_color c = ''borderless''
        \<longrightarrow> get_template e c = ''borderless'')
   \<and> (Card_layout c \<noteq> ''token'' \<and> Card_border_color c \<noteq> ''borderless''
        \<and> Card_frame c \<in> {''1993'', ''1995''} \<longrightarrow> get_template e c = ''classic'')"
  by (simp add: get_template_def)

lemma get_template_some_match:
  assumes "set_iter_ok e" "Card_layout c \<noteq> ''token''" "Card_border_color c \<noteq> ''borderless''"
    "Card_frame c \<notin> {''1993'', ''1995''}"
  shows "(set (Card_frame_effects c) \<inter> set template_effects = {} \<longrightarrow> get_template e c = ''normal'')
    \<and> (set (Card_frame_effects c) \<inter> set template_effects \<noteq> {} \<longrightarrow>
         get_template e c \<in> set (Card_frame_effects c) \<inter> set template_effects)"
proof -
  let ?S = "set (Card_frame_effects c) \<inter> set template_effects"
  have fin: "finite ?S" by simp
  have t: "get_template e c =
      (if truthy_opt (set_iter_first e ?S) then the (set_iter_first e ?S) else ''normal'')"
    using assms(2-4) unfolding get_template_def find_first_match_def by (simp only: if_False)
  have ne: "x \<in> ?S \<Longrightarrow> truthy x" for x
    by (auto simp: template_effects_def truthy_def)
  show ?thesis
  proof (cases "?S = {}")
    case True
    then have "set_iter_first e ?S = None"
      using assms(1) fin unfolding set_iter_ok_def by blast
    with True show ?thesis by (simp add: t truthy_opt_def)
  next
    case False
    then obtain x where x: "x \<in> ?S" "set_iter_first e ?S = Some x"
      using assms(1) fin unfolding set_iter_ok_def by blast
    with False ne [OF x(1)] show ?thesis by (simp add: t truthy_opt_def)
  qed
qed

text \<open>The iteration of the example below is one a run can have.\<close>

lemma env_sorted_iter_ok: "set_iter_ok env_sorted"
  unfolding set_iter_ok_def env_sorted_def by (auto intro: Min_in)

text \<open>
  C5. The template of a card that is no token, not borderless and not in a classic frame
  is to be the first tag of its frame effects, in their order, that is a template tag.
  The code intersects two sets and takes what iteration yields first: for the frame
  effects \<open>snow, etched\<close>, where the first matching tag is \<open>snow\<close>, a run whose set
  iteration starts at \<open>etched\<close> gives the template \<open>etched\<close>.
\<close>

theorem get_template_not_first:
  "get_template env_sorted snow_etched_card = ''etched''
   \<and> first_in_order (Card_frame_effects snow_etched_card) template_effects = Some ''snow''"
  by (simp add: get_template_def find_first_match_def env_sorted_def env0_def
      snow_etched_card_def card0_def Card_layout_def Card_border_color_def Card_frame_def
      Card_frame_effects_def get_or_def template_effects_def truthy_opt_def truthy_def
      first_in_order_def)

subsection \<open>C6: the promotional search returns the best match\<close>

lemma hd_insort_key:
  "hd (insort_key f x ys) = (if ys = [] \<or> f x \<le> f (hd ys) then x else hd ys)"
  by (cases ys) simp_all

lemma insort_key_not_Nil: "insort_key f x ys \<noteq> []"
  by (cases ys) simp_all

lemma sort_key_not_Nil: "xs \<noteq> [] \<Longrightarrow> sort_key f xs \<noteq> []"
  by (cases xs) (simp_all add: insort_key_not_Nil)

lemma hd_sort_key_first_min:
  fixes f :: "'a \<Rightarrow> real"
  shows "xs \<noteq> [] \<Longrightarrow>
    \<exists>i < length xs. hd (sort_key f xs) = xs ! i
      \<and> (\<forall>j < length xs. f (xs ! i) \<le> f (xs ! j))
      \<and> (\<forall>j < i. f (xs ! i) < f (xs ! j))"
proof (induction xs)
  case Nil
  then show ?case by simp
next
  case (Cons x xs)
  show ?case
  proof (cases "xs = []")
    case True
    then show ?thesis by simp
  next
    case False
    from Cons.IH [OF False] obtain i where i: "i < length xs" "hd (sort_key f xs) = xs ! i"
      "\<forall>j < length xs. f (xs ! i) \<le> f (xs ! j)" "\<forall>j < i. f (xs ! i) < f (xs ! j)"
      by blast
    have ne: "sort_key f xs \<noteq> []" using False by (rule sort_key_not_Nil)
    have hd: "hd (sort_key f (x # xs)) = (if f x \<le> f (xs ! i) then x else xs ! i)"
      using ne i(2) by (simp add: hd_insort_key)
    show ?thesis
    proof (cases "f x \<le> f (xs ! i)")
      case True
      have "\<forall>j < length (x # xs). f ((x # xs) ! 0) \<le> f ((x # xs) ! j)"
      proof (intro allI impI)
        fix j assume "j < length (x # xs)"
        then show "f ((x # xs) ! 0) \<le> f ((x # xs) ! j)"
          using True i(3) by (cases j) (auto intro: order_trans)
      qed
      then show ?thesis using True hd by (intro exI [of _ 0]) simp
    next
      case False
      have a: "\<forall>j < length (x # xs). f ((x # xs) ! Suc i) \<le> f ((x # xs) ! j)"
      proof (intro allI impI)
        fix j assume "j < length (x # xs)"
        then show "f ((x # xs) ! Suc i) \<le> f ((x # xs) ! j)"
          using False i(3) by (cases j) auto
      qed
      have b: "\<forall>j < Suc i. f ((x # xs) ! Suc i) < f ((x # xs) ! j)"
      proof (intro allI impI)
        fix j assume "j < Suc i"
        then show "f ((x # xs) ! Suc i) < f ((x # xs) ! j)"
          using False i(4) by (cases j) auto
      qed
      show ?thesis using False hd a b i(1) by (intro exI [of _ "Suc i"]) simp
    qed
  qed
qed


lemma promo_row_matches_readable:
  "7 \<le> length cols \<Longrightarrow> promo_row_matches e nm art cols = Inr (row_qualifies e nm art cols)"
  by (simp add: promo_row_matches_def row_qualifies_def index_def bind_sum_def)

lemma promo_row_matches_short:
  "\<not> 7 \<le> length cols \<Longrightarrow> promo_row_matches e nm art cols = Inl IndexError"
  by (simp add: promo_row_matches_def index_def bind_sum_def)

lemma promo_row_match_readable:
  "7 \<le> length cols \<Longrightarrow> td_a (cols ! 2) \<noteq> None \<Longrightarrow>
   promo_row_match e nm set_nm cols =
     Inr \<lparr>m_code = row_code cols, m_match = row_score e nm set_nm cols\<rparr>"
  by (auto simp: promo_row_match_def row_code_def row_score_def index_def bind_sum_def)

lemma promo_row_match_no_link:
  "7 \<le> length cols \<Longrightarrow> td_a (cols ! 2) = None \<Longrightarrow>
   promo_row_match e nm set_nm cols = Inl AttributeError"
  by (simp add: promo_row_match_def index_def bind_sum_def)

lemma collect_matches_readable:
  "\<forall>cols \<in> set rows. row_readable e nm art cols \<Longrightarrow>
   collect_matches e nm art set_nm rows matches =
     Inr (matches @ map (\<lambda>cols. \<lparr>m_code = row_code cols, m_match = row_score e nm set_nm cols\<rparr>)
            (filter (row_qualifies e nm art) rows))"
proof (induction rows arbitrary: matches)
  case Nil
  then show ?case by simp
next
  case (Cons cols rows)
  then have r: "7 \<le> length cols" "row_qualifies e nm art cols \<Longrightarrow> td_a (cols ! 2) \<noteq> None"
    and rest: "\<forall>cols \<in> set rows. row_readable e nm art cols"
    by (simp_all add: row_readable_def)
  show ?case
  proof (cases "row_qualifies e nm art cols")
    case True
    then show ?thesis
      using Cons.IH [OF rest] r
      by (simp add: promo_row_matches_readable promo_row_match_readable bind_sum_def)
  next
    case False
    then show ?thesis
      using Cons.IH [OF rest] r
      by (simp add: promo_row_matches_readable bind_sum_def)
  qed
qed

lemma collect_matches_unreadable:
  "\<exists>cols \<in> set rows. \<not> row_readable e nm art cols \<Longrightarrow>
   \<exists>err. collect_matches e nm art set_nm rows matches = Inl err"
proof (induction rows arbitrary: matches)
  case Nil
  then show ?case by simp
next
  case (Cons cols rows)
  show ?case
  proof (cases "row_readable e nm art cols")
    case True
    then have r: "7 \<le> length cols" "row_qualifies e nm art cols \<Longrightarrow> td_a (cols ! 2) \<noteq> None"
      by (simp_all add: row_readable_def)
    from True Cons.prems have "\<exists>cols \<in> set rows. \<not> row_readable e nm art cols" by auto
    from Cons.IH [OF this] show ?thesis
      using r
      by (cases "row_qualifies e nm art cols")
         (simp_all add: promo_row_matches_readable promo_row_match_readable bind_sum_def)
  next
    case False
    show ?thesis
    proof (cases "7 \<le> length cols")
      case True
      with False have "row_qualifies e nm art cols" "td_a (cols ! 2) = None"
        by (auto simp: row_readable_def)
      with True show ?thesis
        by (simp add: promo_row_matches_readable promo_row_match_no_link bind_sum_def)
    next
      case False
      then show ?thesis by (simp add: promo_row_matches_short bind_sum_def)
    qed
  qed
qed

lemma get_mtgp_code_pmo_no_page:
  "get_mtgp_page e (promo_url promo_code) = None \<Longrightarrow>
   get_mtgp_code_pmo e nm art set_nm promo_code = Inr None"
  by (simp add: get_mtgp_code_pmo_def get_mtgp_code_pmo_try_def parse_page_def bind_sum_def
      except_pass_def)

lemma get_mtgp_code_pmo_unreadable:
  assumes "get_mtgp_page e (promo_url promo_code) = Some html"
    and "\<exists>cols \<in> set (listing_rows (BeautifulSoup e html)). \<not> row_readable e nm art cols"
  shows "get_mtgp_code_pmo e nm art set_nm promo_code = Inr None"
proof -
  obtain err where err:
    "collect_matches e nm art set_nm (listing_rows (BeautifulSoup e html)) [] = Inl err"
    using collect_matches_unreadable [OF assms(2)] by blast
  then have "err \<in> {IndexError, AttributeError}" by (rule collect_matches_raises)
  then show ?thesis
    using err assms(1)
    by (auto simp: get_mtgp_code_pmo_def get_mtgp_code_pmo_try_def parse_page_def bind_sum_def
        except_pass_def)
qed

lemma get_mtgp_code_pmo_readable:
  assumes "get_mtgp_page e (promo_url promo_code) = Some html"
    and "\<forall>cols \<in> set (listing_rows (BeautifulSoup e html)). row_readable e nm art cols"
  shows "get_mtgp_code_pmo e nm art set_nm promo_code =
    except_pass (bind_sum
      (index (sorted_reverse
         (map (\<lambda>cols. \<lparr>m_code = row_code cols, m_match = row_score e nm set_nm cols\<rparr>)
            (filter (row_qualifies e nm art) (listing_rows (BeautifulSoup e html))))) 0)
      (\<lambda>best. Inr (Some (m_code best))))"
  using assms(1) collect_matches_readable [OF assms(2), of set_nm "[]"]
  by (simp add: get_mtgp_code_pmo_def get_mtgp_code_pmo_try_def parse_page_def bind_sum_def)


text \<open>
  C6. In the promotional search, among the listing rows that qualify (artist text
  containing the artist, name cell containing the card name, case-insensitively), the
  returned reference code is that of a row of maximal score which no earlier qualifying
  row equals in score: the maximum, ties going to the row met first. The result is
  \<open>None\<close> when no row qualifies, and also when the page is missing or some row cannot
  be read (fewer than seven cells, or a qualifying row without a link).
\<close>

theorem get_mtgp_code_pmo_best:
  "(get_mtgp_page e (promo_url promo_code) = None \<longrightarrow>
      get_mtgp_code_pmo e nm art set_nm promo_code = Inr None)
   \<and> (\<forall>html. get_mtgp_page e (promo_url promo_code) = Some html \<longrightarrow>
       (let rows = listing_rows (BeautifulSoup e html);
            cands = filter (row_qualifies e nm art) rows;
            result = get_mtgp_code_pmo e nm art set_nm promo_code
        in ((\<exists>cols \<in> set rows. \<not> row_readable e nm art cols) \<longrightarrow> result = Inr None)
         \<and> ((\<forall>cols \<in> set rows. row_readable e nm art cols) \<and> cands = [] \<longrightarrow> result = Inr None)
         \<and> ((\<forall>cols \<in> set rows. row_readable e nm art cols) \<and> cands \<noteq> [] \<longrightarrow>
              (\<exists>i < length cands.
                 result = Inr (Some (row_code (cands ! i)))
                 \<and> (\<forall>j < length cands.
                       row_score e nm set_nm (cands ! j) \<le> row_score e nm set_nm (cands ! i))
                 \<and> (\<forall>j < i.
                       row_score e nm set_nm (cands ! j) < row_score e nm set_nm (cands ! i))))))"
proof (intro conjI allI impI)
  assume "get_mtgp_page e (promo_url promo_code) = None"
  then show "get_mtgp_code_pmo e nm art set_nm promo_code = Inr None"
    by (rule get_mtgp_code_pmo_no_page)
next
  fix html
  assume page: "get_mtgp_page e (promo_url promo_code) = Some html"
  let ?rows = "listing_rows (BeautifulSoup e html)"
  let ?cands = "filter (row_qualifies e nm art) ?rows"
  let ?mk = "\<lambda>cols. \<lparr>m_code = row_code cols, m_match = row_score e nm set_nm cols\<rparr>"
  let ?result = "get_mtgp_code_pmo e nm art set_nm promo_code"
  have bad: "?result = Inr None" if "\<exists>cols \<in> set ?rows. \<not> row_readable e nm art cols"
    using page that by (rule get_mtgp_code_pmo_unreadable)
  have none: "?result = Inr None"
    if "\<forall>cols \<in> set ?rows. row_readable e nm art cols" "?cands = []"
    using get_mtgp_code_pmo_readable [OF page that(1), of set_nm] that(2)
    by (simp add: sorted_reverse_def index_def bind_sum_def except_pass_def)
  have best: "\<exists>i < length ?cands.
                 ?result = Inr (Some (row_code (?cands ! i)))
                 \<and> (\<forall>j < length ?cands.
                       row_score e nm set_nm (?cands ! j) \<le> row_score e nm set_nm (?cands ! i))
                 \<and> (\<forall>j < i.
                       row_score e nm set_nm (?cands ! j) < row_score e nm set_nm (?cands ! i))"
    if rd: "\<forall>cols \<in> set ?rows. row_readable e nm art cols" and ne: "?cands \<noteq> []"
  proof -
    let ?ms = "map ?mk ?cands"
    have mne: "?ms \<noteq> []" using ne by simp
    from hd_sort_key_first_min [OF mne, of "\<lambda>m. - m_match m"]
    obtain i where i: "i < length ?ms" "hd (sort_key (\<lambda>m. - m_match m) ?ms) = ?ms ! i"
      "\<forall>j < length ?ms. - m_match (?ms ! i) \<le> - m_match (?ms ! j)"
      "\<forall>j < i. - m_match (?ms ! i) < - m_match (?ms ! j)"
      by blast
    have il: "i < length ?cands" using i(1) by simp
    have sne: "sorted_reverse ?ms \<noteq> []"
      unfolding sorted_reverse_def using mne by (rule sort_key_not_Nil)
    have "index (sorted_reverse ?ms) 0 = Inr (hd (sorted_reverse ?ms))"
      using sne by (cases "sorted_reverse ?ms") (simp_all add: index_def)
    also have "hd (sorted_reverse ?ms) = ?mk (?cands ! i)"
      unfolding sorted_reverse_def i(2) using il by simp
    finally have res: "?result = Inr (Some (row_code (?cands ! i)))"
      using get_mtgp_code_pmo_readable [OF page rd, of set_nm]
      by (simp add: bind_sum_def except_pass_def)
    have mx: "\<forall>j < length ?cands.
        row_score e nm set_nm (?cands ! j) \<le> row_score e nm set_nm (?cands ! i)"
      using i(3) il by simp
    have fst: "\<forall>j < i. row_score e nm set_nm (?cands ! j) < row_score e nm set_nm (?cands ! i)"
    proof (intro allI impI)
      fix j assume j: "j < i"
      then have "j < length ?cands" using il by simp
      then show "row_score e nm set_nm (?cands ! j) < row_score e nm set_nm (?cands ! i)"
        using i(4) j il by simp
    qed
    show ?thesis using il res mx fst by blast
  qed
  show "let rows = ?rows; cands = filter (row_qualifies e nm art) rows; result = ?result
        in ((\<exists>cols \<in> set rows. \<not> row_readable e nm art cols) \<longrightarrow> result = Inr None)
         \<and> ((\<forall>cols \<in> set rows. row_readable e nm art cols) \<and> cands = [] \<longrightarrow> result = Inr None)
         \<and> ((\<forall>cols \<in> set rows. row_readable e nm art cols) \<and> cands \<noteq> [] \<longrightarrow>
              (\<exists>i < length cands.
                 result = Inr (Some (row_code (cands ! i)))
                 \<and> (\<forall>j < length cands.
                       row_score e nm set_nm (cands ! j) \<le> row_score e nm set_nm (cands ! i))
                 \<and> (\<forall>j < i.
                       row_score e nm set_nm (cands ! j) < row_score e nm set_nm (cands ! i))))"
    unfolding Let_def using bad none best by blast
qed

lemma promo_cands:
  "filter (row_qualifies env_promo ''Bolt'' ''Ann'') promo_rows =
     [listing_row ''1'' ''Bolt A'' ''card?ref=aaa1'' ''Ann'',
      listing_row ''3'' ''Bolt B'' ''card?ref=bbb2'' ''Ann'',
      listing_row ''4'' ''Bolt B'' ''card?ref=ccc3'' ''Ann'']"
  by (simp add: promo_rows_def row_qualifies_def listing_row_def plain_cell_def link_cell_def
      env_promo_def env0_def str_in_def sublist_code(3))

lemma promo_readable: "\<forall>cols \<in> set promo_rows. row_readable env_promo ''Bolt'' ''Ann'' cols"
  by (simp add: promo_rows_def row_readable_def listing_row_def plain_cell_def link_cell_def)

lemma promo_scores:
  "row_score env_promo ''Bolt'' '' B'' (listing_row ''1'' ''Bolt A'' ''card?ref=aaa1'' ''Ann'') = 0"
  "row_score env_promo ''Bolt'' '' B'' (listing_row ''3'' ''Bolt B'' ''card?ref=bbb2'' ''Ann'') = 1"
  "row_score env_promo ''Bolt'' '' B'' (listing_row ''4'' ''Bolt B'' ''card?ref=ccc3'' ''Ann'') = 1"
  by (simp_all add: row_score_def listing_row_def plain_cell_def link_cell_def env_promo_def env0_def
      str_replace_def)

lemma promo_code_3: "row_code (listing_row ''3'' ''Bolt B'' ''card?ref=bbb2'' ''Ann'') = ''bbb2''"
  by (simp add: row_code_def listing_row_def link_cell_def plain_cell_def get_or_def str_replace_def)

theorem get_mtgp_code_pmo_best_witness:
  "get_mtgp_code_pmo env_promo ''Bolt'' ''Ann'' '' B'' ''dci'' = Inr (Some ''bbb2'')"
proof -
  let ?cands = "[listing_row ''1'' ''Bolt A'' ''card?ref=aaa1'' ''Ann'',
      listing_row ''3'' ''Bolt B'' ''card?ref=bbb2'' ''Ann'',
      listing_row ''4'' ''Bolt B'' ''card?ref=ccc3'' ''Ann'']"
  have page: "get_mtgp_page env_promo (promo_url ''dci'') = Some ''<html>''"
    by (simp add: env_promo_def)
  have rows: "listing_rows (BeautifulSoup env_promo ''<html>'') = promo_rows"
    by (simp add: env_promo_def)
  from get_mtgp_code_pmo_best [of env_promo "''dci''" "''Bolt''" "''Ann''" "'' B''"]
  have "\<exists>i < length ?cands.
      get_mtgp_code_pmo env_promo ''Bolt'' ''Ann'' '' B'' ''dci'' = Inr (Some (row_code (?cands ! i)))
      \<and> (\<forall>j < length ?cands. row_score env_promo ''Bolt'' '' B'' (?cands ! j)
             \<le> row_score env_promo ''Bolt'' '' B'' (?cands ! i))
      \<and> (\<forall>j < i. row_score env_promo ''Bolt'' '' B'' (?cands ! j)
             < row_score env_promo ''Bolt'' '' B'' (?cands ! i))"
    using promo_readable by (simp add: page rows Let_def promo_cands)
  then obtain i where i: "i < length ?cands"
    "get_mtgp_code_pmo env_promo ''Bolt'' ''Ann'' '' B'' ''dci'' = Inr (Some (row_code (?cands ! i)))"
    "\<forall>j < length ?cands. row_score env_promo ''Bolt'' '' B'' (?cands ! j)
             \<le> row_score env_promo ''Bolt'' '' B'' (?cands ! i)"
    "\<forall>j < i. row_score env_promo ''Bolt'' '' B'' (?cands ! j)
             < row_score env_promo ''Bolt'' '' B'' (?cands ! i)"
    by blast
  from i(1) have "i = 0 \<or> i = 1 \<or> i = 2" by auto
  moreover have "i \<noteq> 0"
  proof
    assume "i = 0"
    with i(3) [rule_format, of 1] show False by (simp add: promo_scores)
  qed
  moreover have "i \<noteq> 2"
  proof
    assume "i = 2"
    with i(4) [rule_format, of 1] show False by (simp add: promo_scores)
  qed
  ultimately have "i = 1" by blast
  with i(2) show ?thesis by (simp add: promo_code_3)
qed

subsection \<open>C7: the two passes over the set listing, and the fallback code\<close>











subsection \<open>C8: a fallback download after a primary failure is logged quietly\<close>

lemma download_mtgp_fails:
  "\<not> fst (download_mtgp e url path label w0) \<Longrightarrow> download_mtgp e url path label w = (False, w)"
  by (auto simp: download_mtgp_def split: if_splits)

lemma download_scryfall_ok:
  "fst (download_scryfall e url path label w0) \<Longrightarrow>
   download_scryfall e url path label w = (True, log_scryfall label w)"
  by (auto simp: download_scryfall_def split: if_splits)

lemma quiet_log:
  "log_failed label False True ''failed'' action (log_scryfall label w) =
     w\<lparr>console := console w @ [SCRYFALL label],
       logs := (logs w)(''failed'' := logs w ''failed'' @ [label])\<rparr>"
  by (simp add: log_failed_def log_scryfall_def)

lemma Card_download_fallback:
  assumes "\<not> cfg_only_scryfall g" "cfg_download_scryfall g" "logging"
    and "\<not> fst (download_mtgp e (p_mtgp_url self) (p_mtgp_path self) (p_label self) w)"
    and "fst (download_scryfall e (p_scry_url self) (p_scry_path self) (p_label self) w)"
  shows "Card_download g e self logging w =
     ([(False, p_label self, p_scry_path self)],
      w\<lparr>console := console w @ [SCRYFALL (p_label self)],
        logs := (logs w)(''failed'' := logs w ''failed'' @ [p_label self])\<rparr>)"
  unfolding Card_download_def
  using assms(1-3)
  by (simp add: download_mtgp_fails [OF assms(4)] download_scryfall_ok [OF assms(5)] quiet_log)

lemma MDFC_face_fallback:
  assumes "cfg_download_scryfall g"
    and "i < length (p_mtgp_urls self)" "i < length (p_mtgp_paths self)"
    and "i < length (p_labels self)" "i < length (p_scry_paths self)"
    and "\<not> fst (download_mtgp e (p_mtgp_urls self ! i) (p_mtgp_paths self ! i) (p_labels self ! i) w0)"
    and "fst (download_scryfall e scry_url (p_scry_paths self ! i) (p_labels self ! i) w0)"
  shows "MDFC_face g e self logging i scry_url w =
     (Inr (False, p_labels self ! i, p_mtgp_paths self ! i),
      w\<lparr>console := console w @ [SCRYFALL (p_labels self ! i)],
        logs := (logs w)(''failed'' := logs w ''failed'' @ [p_labels self ! i])\<rparr>)"
  unfolding MDFC_face_def
  using assms(1-5)
  by (simp add: index_def bind_sum_def download_mtgp_fails [OF assms(6)]
      download_scryfall_ok [OF assms(7)] quiet_log)

text \<open>A step of the loop only appends to the log of failures.\<close>

lemma log_failed_prefix: "prefix (logs w f) (logs (log_failed label po wl fn action w) f)"
  by (simp add: log_failed_def Let_def)

lemma download_mtgp_logs: "download_mtgp e url path label w = (r, w1) \<Longrightarrow> logs w1 = logs w"
  by (auto simp: download_mtgp_def log_mtgp_def split: if_splits)

lemma download_scryfall_logs: "download_scryfall e url path label w = (r, w1) \<Longrightarrow> logs w1 = logs w"
  by (auto simp: download_scryfall_def log_scryfall_def split: if_splits)

lemma MDFC_face_prefix:
  assumes "MDFC_face g e self logging i scry_url w = (r, w')"
  shows "prefix (logs w f) (logs w' f)"
proof -
  have b: "prefix (logs w f) (logs (log_failed label po wl fn action w1) f)"
    if "logs w1 = logs w" for w1 label po wl fn action
    using log_failed_prefix [of w1 f label po wl fn action] that by simp
  show ?thesis
    using assms unfolding MDFC_face_def
    by (auto simp: bind_sum_def split: sum.splits prod.splits bool.splits if_splits
        dest!: download_mtgp_logs download_scryfall_logs intro!: b)
qed

lemma enumerate_list_nth: "k < length xs \<Longrightarrow> enumerate_list xs ! k = (k, xs ! k)"
  by (simp add: enumerate_list_def)

lemma for_faces_results:
  assumes mono: "\<And>i u w r w'. step i u w = (r, w') \<Longrightarrow> prefix (logs w f) (logs w' f)"
    and run: "for_faces step xs acc w = (Inr rs, w')"
  shows "length rs = length acc + length xs \<and> take (length acc) rs = acc
    \<and> prefix (logs w f) (logs w' f)
    \<and> (\<forall>k < length xs. \<exists>wk wk'.
          step (fst (xs ! k)) (snd (xs ! k)) wk = (Inr (rs ! (length acc + k)), wk')
          \<and> prefix (logs w f) (logs wk f) \<and> prefix (logs wk' f) (logs w' f))"
  using run
proof (induction xs arbitrary: acc w)
  case Nil
  then show ?case by simp
next
  case (Cons x xs)
  obtain i u where x: "x = (i, u)" by (cases x)
  obtain r w1 where s: "step i u w = (r, w1)" by (cases "step i u w")
  from Cons.prems x s obtain res where r: "r = Inr res"
    and rest: "for_faces step xs (acc @ [res]) w1 = (Inr rs, w')"
    by (cases r) auto
  note ih = Cons.IH [OF rest]
  have p1: "prefix (logs w f) (logs w1 f)" using mono [OF s] .
  have len: "length rs = length acc + length (x # xs)" using ih by simp
  have tk: "take (length acc) rs = acc"
  proof -
    have "take (length acc) (take (Suc (length acc)) rs) = take (length acc) (acc @ [res])"
      using ih by simp
    then show ?thesis by (simp add: min_def)
  qed
  have at: "rs ! length acc = res"
  proof -
    have "take (Suc (length acc)) rs ! length acc = (acc @ [res]) ! length acc"
      using ih by simp
    then show ?thesis by simp
  qed
  have pw: "prefix (logs w f) (logs w' f)"
    using p1 ih by (meson prefix_order.order_trans)
  have each: "\<exists>wk wk'.
          step (fst ((x # xs) ! k)) (snd ((x # xs) ! k)) wk = (Inr (rs ! (length acc + k)), wk')
          \<and> prefix (logs w f) (logs wk f) \<and> prefix (logs wk' f) (logs w' f)"
    if k: "k < length (x # xs)" for k
  proof (cases k)
    case 0
    have "step (fst ((x # xs) ! 0)) (snd ((x # xs) ! 0)) w = (Inr (rs ! (length acc + 0)), w1)"
      using s r at x by simp
    moreover have "prefix (logs w1 f) (logs w' f)" using ih by simp
    ultimately show ?thesis using 0 by blast
  next
    case (Suc j)
    then have "j < length xs" using k by simp
    with ih obtain wk wk' where
      a: "step (fst (xs ! j)) (snd (xs ! j)) wk = (Inr (rs ! (length (acc @ [res]) + j)), wk')"
      and b: "prefix (logs w1 f) (logs wk f)" and c: "prefix (logs wk' f) (logs w' f)"
      by blast
    have "prefix (logs w f) (logs wk f)"
      using p1 b by (meson prefix_order.order_trans)
    with a c Suc show ?thesis by auto
  qed
  show ?case using len tk pw each by blast
qed

lemma prefix_middle:
  assumes "prefix a b" "prefix (b @ [x]) c"
  shows "\<exists>pre post. c = a @ pre @ [x] @ post"
proof -
  from assms obtain p q where "b = a @ p" "c = (b @ [x]) @ q"
    by (auto simp: prefix_def)
  then have "c = a @ p @ [x] @ q" by simp
  then show ?thesis by blast
qed

lemma MDFC_face_index:
  assumes "MDFC_face g e self logging i scry_url w = (Inr r, w')"
  shows "i < length (p_mtgp_urls self) \<and> i < length (p_mtgp_paths self) \<and> i < length (p_labels self)"
  using assms unfolding MDFC_face_def
  by (auto simp: bind_sum_def index_def split: sum.splits if_splits)

lemma MDFC_face_scry_index:
  assumes "MDFC_face g e self logging i scry_url w = (Inr r, w')"
    and "cfg_download_scryfall g"
    and "\<not> fst (download_mtgp e (p_mtgp_urls self ! i) (p_mtgp_paths self ! i) (p_labels self ! i) w0)"
  shows "i < length (p_scry_paths self)"
proof -
  have ix: "i < length (p_mtgp_urls self)" "i < length (p_mtgp_paths self)" "i < length (p_labels self)"
    using MDFC_face_index [OF assms(1)] by simp_all
  show ?thesis
    using assms(1,2) ix unfolding MDFC_face_def
    by (auto simp: bind_sum_def index_def download_mtgp_fails [OF assms(3)]
        split: sum.splits if_splits)
qed

lemma MDFC_download_face:
  assumes "\<not> cfg_only_scryfall g" "cfg_download_scryfall g"
    and run: "MDFC_download g e self logging w = (Inr results, w')"
    and i: "i < length (p_scry_urls self)"
    and fail: "\<not> fst (download_mtgp e (p_mtgp_urls self ! i) (p_mtgp_paths self ! i) (p_labels self ! i) w)"
    and ok: "fst (download_scryfall e (p_scry_urls self ! i) (p_scry_paths self ! i) (p_labels self ! i) w)"
  shows "length results = length (p_scry_urls self)
    \<and> results ! i = (False, p_labels self ! i, p_mtgp_paths self ! i)
    \<and> (\<exists>pre post. logs w' ''failed'' = logs w ''failed'' @ pre @ [p_labels self ! i] @ post)"
proof -
  let ?xs = "enumerate_list (p_scry_urls self)"
  have run': "for_faces (MDFC_face g e self logging) ?xs [] w = (Inr results, w')"
    using run assms(1) by (simp add: MDFC_download_def)
  have lx: "length ?xs = length (p_scry_urls self)" by (simp add: enumerate_list_def)
  from for_faces_results [of "MDFC_face g e self logging" "''failed''", OF _ run']
  have len: "length results = length ?xs"
    and each: "\<forall>k < length ?xs. \<exists>wk wk'.
          MDFC_face g e self logging (fst (?xs ! k)) (snd (?xs ! k)) wk = (Inr (results ! k), wk')
          \<and> prefix (logs w ''failed'') (logs wk ''failed'')
          \<and> prefix (logs wk' ''failed'') (logs w' ''failed'')"
    using MDFC_face_prefix by auto
  from each i lx obtain wk wk' where
    st: "MDFC_face g e self logging i (p_scry_urls self ! i) wk = (Inr (results ! i), wk')"
    and a: "prefix (logs w ''failed'') (logs wk ''failed'')"
    and b: "prefix (logs wk' ''failed'') (logs w' ''failed'')"
    by (auto simp: enumerate_list_nth)
  have ix: "i < length (p_mtgp_urls self)" "i < length (p_mtgp_paths self)" "i < length (p_labels self)"
    using MDFC_face_index [OF st] by simp_all
  have ixs: "i < length (p_scry_paths self)"
    using MDFC_face_scry_index [OF st assms(2) fail] .
  have eq: "MDFC_face g e self logging i (p_scry_urls self ! i) wk =
     (Inr (False, p_labels self ! i, p_mtgp_paths self ! i),
      wk\<lparr>console := console wk @ [SCRYFALL (p_labels self ! i)],
        logs := (logs wk)(''failed'' := logs wk ''failed'' @ [p_labels self ! i])\<rparr>)"
    using MDFC_face_fallback [OF assms(2) ix ixs fail ok] .
  from st eq have res: "results ! i = (False, p_labels self ! i, p_mtgp_paths self ! i)"
    and wk': "logs wk' ''failed'' = logs wk ''failed'' @ [p_labels self ! i]"
    by auto
  have "\<exists>pre post. logs w' ''failed'' = logs w ''failed'' @ pre @ [p_labels self ! i] @ post"
    using prefix_middle [OF a] b wk' by simp
  then show ?thesis using len lx res by simp
qed

text \<open>
  C8. When the runs are not restricted to Scryfall, the Scryfall fallback is enabled,
  the download of a face from MTGP fails and its download from Scryfall succeeds, then,
  with logging enabled, the label of the face is appended to the log file \<open>failed\<close>
  and nothing but the Scryfall success line is printed; and the result of the face is
  \<open>(False, label, path)\<close>, the success flag being that of the MTGP attempt. For a
  single-face card the path is the Scryfall path. For a multi-face card each face is one
  turn of the loop, which logs in the same quiet way, and in the list that \<open>download\<close>
  returns the face has the result \<open>(False, label, MTGP path)\<close>, its label standing in
  the log after what was there before.
\<close>

theorem download_fallback_logged_quietly:
  "(\<not> cfg_only_scryfall g \<and> cfg_download_scryfall g \<and> logging
      \<and> \<not> fst (download_mtgp e (p_mtgp_url sf) (p_mtgp_path sf) (p_label sf) w)
      \<and> fst (download_scryfall e (p_scry_url sf) (p_scry_path sf) (p_label sf) w)
    \<longrightarrow> Card_download g e sf logging w =
          ([(False, p_label sf, p_scry_path sf)],
           w\<lparr>console := console w @ [SCRYFALL (p_label sf)],
             logs := (logs w)(''failed'' := logs w ''failed'' @ [p_label sf])\<rparr>))
   \<and> (\<forall>i scry_url.
        cfg_download_scryfall g
        \<and> i < length (p_mtgp_urls mf) \<and> i < length (p_mtgp_paths mf)
        \<and> i < length (p_labels mf) \<and> i < length (p_scry_paths mf)
        \<and> \<not> fst (download_mtgp e (p_mtgp_urls mf ! i) (p_mtgp_paths mf ! i) (p_labels mf ! i) w)
        \<and> fst (download_scryfall e scry_url (p_scry_paths mf ! i) (p_labels mf ! i) w)
        \<longrightarrow> MDFC_face g e mf logging i scry_url w =
              (Inr (False, p_labels mf ! i, p_mtgp_paths mf ! i),
               w\<lparr>console := console w @ [SCRYFALL (p_labels mf ! i)],
                 logs := (logs w)(''failed'' := logs w ''failed'' @ [p_labels mf ! i])\<rparr>))
   \<and> (\<forall>i results w'.
        \<not> cfg_only_scryfall g \<and> cfg_download_scryfall g
        \<and> MDFC_download g e mf logging w = (Inr results, w')
        \<and> i < length (p_scry_urls mf)
        \<and> \<not> fst (download_mtgp e (p_mtgp_urls mf ! i) (p_mtgp_paths mf ! i) (p_labels mf ! i) w)
        \<and> fst (download_scryfall e (p_scry_urls mf ! i) (p_scry_paths mf ! i) (p_labels mf ! i) w)
        \<longrightarrow> length results = length (p_scry_urls mf)
            \<and> results ! i = (False, p_labels mf ! i, p_mtgp_paths mf ! i)
            \<and> (\<exists>pre post. logs w' ''failed'' = logs w ''failed'' @ pre @ [p_labels mf ! i] @ post))"
proof (intro conjI allI impI)
  assume "\<not> cfg_only_scryfall g \<and> cfg_download_scryfall g \<and> logging
      \<and> \<not> fst (download_mtgp e (p_mtgp_url sf) (p_mtgp_path sf) (p_label sf) w)
      \<and> fst (download_scryfall e (p_scry_url sf) (p_scry_path sf) (p_label sf) w)"
  then show "Card_download g e sf logging w =
          ([(False, p_label sf, p_scry_path sf)],
           w\<lparr>console := console w @ [SCRYFALL (p_label sf)],
             logs := (logs w)(''failed'' := logs w ''failed'' @ [p_label sf])\<rparr>)"
    using Card_download_fallback by blast
next
  fix i scry_url
  assume "cfg_download_scryfall g
        \<and> i < length (p_mtgp_urls mf) \<and> i < length (p_mtgp_paths mf)
        \<and> i < length (p_labels mf) \<and> i < length (p_scry_paths mf)
        \<and> \<not> fst (download_mtgp e (p_mtgp_urls mf ! i) (p_mtgp_paths mf ! i) (p_labels mf ! i) w)
        \<and> fst (download_scryfall e scry_url (p_scry_paths mf ! i) (p_labels mf ! i) w)"
  then show "MDFC_face g e mf logging i scry_url w =
              (Inr (False, p_labels mf ! i, p_mtgp_paths mf ! i),
               w\<lparr>console := console w @ [SCRYFALL (p_labels mf ! i)],
                 logs := (logs w)(''failed'' := logs w ''failed'' @ [p_labels mf ! i])\<rparr>)"
    using MDFC_face_fallback by blast
next
  fix i results w'
  assume a: "\<not> cfg_only_scryfall g \<and> cfg_download_scryfall g
        \<and> MDFC_download g e mf logging w = (Inr results, w')
        \<and> i < length (p_scry_urls mf)
        \<and> \<not> fst (download_mtgp e (p_mtgp_urls mf ! i) (p_mtgp_paths mf ! i) (p_labels mf ! i) w)
        \<and> fst (download_scryfall e (p_scry_urls mf ! i) (p_scry_paths mf ! i) (p_labels mf ! i) w)"
  have "length results = length (p_scry_urls mf)
            \<and> results ! i = (False, p_labels mf ! i, p_mtgp_paths mf ! i)
            \<and> (\<exists>pre post. logs w' ''failed'' = logs w ''failed'' @ pre @ [p_labels mf ! i] @ post)"
    apply (rule MDFC_download_face [of g e mf logging w results w' i])
    using a by blast+
  then show "length results = length (p_scry_urls mf)"
    and "results ! i = (False, p_labels mf ! i, p_mtgp_paths mf ! i)"
    and "\<exists>pre post. logs w' ''failed'' = logs w ''failed'' @ pre @ [p_labels mf ! i] @ post"
    by blast+
qed

lemma agadeem_returns:
  "\<exists>rs. fst (MDFC_download cfg0 env_fallback agadeem_props True world0) = Inr rs"
  by (simp add: MDFC_download_def cfg0_def enumerate_list_def upt_rec MDFC_face_def
      agadeem_props_def index_def bind_sum_def download_mtgp_def download_scryfall_def
      truthy_opt_def truthy_def env_fallback_def env0_def)

lemma list_of_two: "length xs = 2 \<Longrightarrow> xs = [xs ! 0, xs ! 1]"
  by (cases xs; cases "tl xs") auto

theorem download_fallback_logged_quietly_witness:
  "Card_download cfg0 env_fallback opt_props True world0 =
     ([(False, ''Opt (DOM) 60'', ''scry/normal/Opt.jpg'')],
      \<lparr>console = [SCRYFALL ''Opt (DOM) 60''],
        logs = (\<lambda>filename. [])(''failed'' := [''Opt (DOM) 60''])\<rparr>)
   \<and> fst (MDFC_download cfg0 env_fallback agadeem_props True world0) =
       Inr [(False, ''Agadeem's Awakening (ZNR) 90'', ''mtgp/front.jpg''),
            (False, ''Agadeem, the Undercrypt (ZNR) 90'', ''mtgp/back.jpg'')]"
proof -
  have single: "Card_download cfg0 env_fallback opt_props True world0 =
     ([(False, ''Opt (DOM) 60'', ''scry/normal/Opt.jpg'')],
      \<lparr>console = [SCRYFALL ''Opt (DOM) 60''],
        logs = (\<lambda>filename. [])(''failed'' := [''Opt (DOM) 60''])\<rparr>)"
    using download_fallback_logged_quietly [of cfg0 True env_fallback opt_props world0]
    by (simp add: cfg0_def opt_props_def download_mtgp_def download_scryfall_def truthy_opt_def
        truthy_def env_fallback_def env0_def world0_def)
  obtain rs w' where run: "MDFC_download cfg0 env_fallback agadeem_props True world0 = (Inr rs, w')"
    using agadeem_returns by (cases "MDFC_download cfg0 env_fallback agadeem_props True world0") auto
  have f0: "length rs = 2 \<and> rs ! 0 = (False, ''Agadeem's Awakening (ZNR) 90'', ''mtgp/front.jpg'')"
    using download_fallback_logged_quietly
      [of cfg0 True env_fallback opt_props world0 agadeem_props, THEN conjunct2, THEN conjunct2,
       rule_format, of rs w' 0] run
    by (simp add: cfg0_def agadeem_props_def download_mtgp_def download_scryfall_def truthy_opt_def
        truthy_def env_fallback_def env0_def)
  have f1: "rs ! 1 = (False, ''Agadeem, the Undercrypt (ZNR) 90'', ''mtgp/back.jpg'')"
    using download_fallback_logged_quietly
      [of cfg0 True env_fallback opt_props world0 agadeem_props, THEN conjunct2, THEN conjunct2,
       rule_format, of rs w' 1] run
    by (simp add: cfg0_def agadeem_props_def download_mtgp_def download_scryfall_def truthy_opt_def
        truthy_def env_fallback_def env0_def)
  have "rs = [(False, ''Agadeem's Awakening (ZNR) 90'', ''mtgp/front.jpg''),
            (False, ''Agadeem, the Undercrypt (ZNR) 90'', ''mtgp/back.jpg'')]"
    using list_of_two [of rs] f0 f1 by simp
  then show ?thesis using single run by simp
qed

subsection \<open>C9: numbering a path that exists\<close>

text \<open>The decimal digits of a number are digits, and they determine the number.\<close>

lemma digit_char_isdigit: "d < 10 \<Longrightarrow> isdigit (digit_char d)"
proof -
  assume "d < 10"
  then have "d = 0 \<or> d = 1 \<or> d = 2 \<or> d = 3 \<or> d = 4 \<or> d = 5 \<or> d = 6 \<or> d = 7
    \<or> d = 8 \<or> d = 9"
    by arith
  then show ?thesis
    by (elim disjE) (simp_all add: digit_char_def isdigit_def)
qed

lemma digit_val_digit_char: "d < 10 \<Longrightarrow> digit_val (digit_char d) = d"
proof -
  assume "d < 10"
  then have "d = 0 \<or> d = 1 \<or> d = 2 \<or> d = 3 \<or> d = 4 \<or> d = 5 \<or> d = 6 \<or> d = 7
    \<or> d = 8 \<or> d = 9"
    by arith
  then show ?thesis
    by (elim disjE) (simp_all add: digit_char_def digit_val_def)
qed

lemma str_of_nat_digits: "list_all isdigit (str_of_nat n)"
proof (induction n rule: str_of_nat.induct)
  case (1 n)
  show ?case
  proof (cases "n < 10")
    case True
    then show ?thesis by (simp add: str_of_nat.simps [of n] digit_char_isdigit)
  next
    case False
    then show ?thesis
      using 1 by (simp add: str_of_nat.simps [of n] digit_char_isdigit)
  qed
qed

lemma str_of_nat_not_Nil: "str_of_nat n \<noteq> []"
  by (simp add: str_of_nat.simps [of n])

lemma foldl_digits_str_of_nat:
  "foldl (\<lambda>acc ch. 10 * acc + digit_val ch) 0 (str_of_nat n) = n"
proof (induction n rule: str_of_nat.induct)
  case (1 n)
  show ?case
  proof (cases "n < 10")
    case True
    then show ?thesis by (simp add: str_of_nat.simps [of n] digit_val_digit_char)
  next
    case False
    then show ?thesis
      using 1 by (simp add: str_of_nat.simps [of n] digit_val_digit_char)
  qed
qed

lemma str_of_nat_inj: "str_of_nat m = str_of_nat n \<Longrightarrow> m = n"
  by (metis foldl_digits_str_of_nat)

lemma int_of_digits_str_of_nat: "int_of_digits (str_of_nat n) = Inr n"
  by (simp add: int_of_digits_def str_of_nat_not_Nil foldl_digits_str_of_nat)

text \<open>Replacing \<open>.jpg\<close> in a path that ends with it.\<close>

lemma jpg_border: "''.jpg'' = xs @ ys \<Longrightarrow> suffix xs ''.jpg'' \<Longrightarrow> xs = [] \<or> ys = []"
  by (auto simp: Cons_eq_append_conv suffix_Cons)

lemma replace_scan_suffix:
  "suffix ''.jpg'' s \<Longrightarrow> suffix new (replace_scan s ''.jpg'' new)"
proof (induction "length s" arbitrary: s rule: less_induct)
  case less
  from less.prems obtain c cs where s: "s = c # cs"
    by (cases s) auto
  show ?case
  proof (cases "prefix ''.jpg'' (c # cs)")
    case True
    then obtain rest where rest: "c # cs = ''.jpg'' @ rest"
      by (auto simp: prefix_def)
    then have d: "drop (length ''.jpg'') (c # cs) = rest" by simp
    have r: "replace_scan (c # cs) ''.jpg'' new = new @ replace_scan rest ''.jpg'' new"
      using True d by (simp del: drop_Suc_Cons)
    show ?thesis
    proof (cases "rest = []")
      case True
      then show ?thesis using r s by simp
    next
      case False
      have "suffix ''.jpg'' (''.jpg'' @ rest)" using less.prems rest s by simp
      then have "suffix ''.jpg'' rest \<or> (\<exists>xs'. ''.jpg'' = xs' @ rest \<and> suffix xs' ''.jpg'')"
        by (simp only: suffix_append)
      then have "suffix ''.jpg'' rest"
      proof
        assume "suffix ''.jpg'' rest"
        then show ?thesis .
      next
        assume "\<exists>xs'. ''.jpg'' = xs' @ rest \<and> suffix xs' ''.jpg''"
        then obtain xs' where x: "''.jpg'' = xs' @ rest" "suffix xs' ''.jpg''" by blast
        from jpg_border [OF x] False have "xs' = []" by simp
        with x(1) show ?thesis by simp
      qed
      moreover have "length rest < length s" using rest s by simp
      ultimately have "suffix new (replace_scan rest ''.jpg'' new)"
        using less.hyps by blast
      then show ?thesis unfolding s r by (simp add: suffix_append)
    qed
  next
    case False
    then have ne: "''.jpg'' \<noteq> c # cs" by auto
    have "suffix ''.jpg'' cs"
      using less.prems ne unfolding s by (simp only: suffix_Cons) blast
    moreover have "length cs < length s" using s by simp
    ultimately have sf: "suffix new (replace_scan cs ''.jpg'' new)"
      using less.hyps by blast
    have "replace_scan (c # cs) ''.jpg'' new = c # replace_scan cs ''.jpg'' new"
      using False by auto
    then show ?thesis unfolding s using sf by (simp only: suffix_Cons) blast
  qed
qed

lemma numbered_suffix:
  "suffix ''.jpg'' p \<Longrightarrow> 0 < i \<Longrightarrow> suffix ('' ('' @ str_of_nat i @ '').jpg'') (numbered p i)"
  by (simp add: numbered_def str_replace_def replace_scan_suffix)

lemma counter_of_suffix:
  assumes "suffix ('' ('' @ str_of_nat i @ '').jpg'') t"
  shows "takeWhile isdigit (drop 5 (rev t)) = rev (str_of_nat i)"
proof -
  from assms obtain pre where "t = pre @ '' ('' @ str_of_nat i @ '').jpg''"
    by (auto simp: suffix_def)
  then have "drop 5 (rev t) = rev (str_of_nat i) @ CHR ''('' # CHR '' '' # rev pre"
    by simp
  moreover have "\<not> isdigit (CHR ''('')" by (simp add: isdigit_def)
  moreover have "\<forall>ch \<in> set (rev (str_of_nat i)). isdigit ch"
    using str_of_nat_digits [of i] by (simp add: list_all_iff)
  ultimately show ?thesis
    by (simp add: takeWhile_tail)
qed

lemma numbered_inj:
  assumes "suffix ''.jpg'' p" "0 < i" "0 < j" "numbered p i = numbered p j"
  shows "i = j"
proof -
  have "rev (str_of_nat i) = rev (str_of_nat j)"
    using counter_of_suffix [OF numbered_suffix [OF assms(1,2)]]
      counter_of_suffix [OF numbered_suffix [OF assms(1,3)]] assms(4)
    by simp
  then show ?thesis using str_of_nat_inj by simp
qed

lemma some_name_is_free:
  assumes "finite files" "suffix ''.jpg'' p"
  shows "\<exists>k. numbered p k \<notin> files"
proof (rule ccontr)
  assume "\<not> (\<exists>k. numbered p k \<notin> files)"
  then have "numbered p ` {0<..} \<subseteq> files" by auto
  then have "finite (numbered p ` {0<..})" using assms(1) by (rule finite_subset)
  moreover have "inj_on (numbered p) {0<..}"
    using numbered_inj [OF assms(2)] by (auto simp: inj_on_def)
  ultimately have "finite {0::nat<..}" by (rule finite_imageD)
  then show False by (simp add: infinite_Ioi)
qed

lemma check_path_loop_first_free:
  assumes "numbered p k \<notin> files" "\<forall>j. i \<le> j \<and> j < k \<longrightarrow> numbered p j \<in> files" "i \<le> k"
  shows "check_path_loop files p i (numbered p i) = Some (numbered p k)"
  using assms
proof (induction "k - i" arbitrary: i)
  case 0
  then have "i = k" by simp
  then show ?case using "0.prems"(1) by (simp add: check_path_loop.simps)
next
  case (Suc d)
  then have lt: "i < k" by simp
  then have occ: "numbered p i \<in> files" using Suc.prems(2) by simp
  have nx: "str_replace p ''.jpg'' ('' ('' @ str_of_nat (i + 1) @ '').jpg'') = numbered p (Suc i)"
    by (simp add: numbered_def)
  have "check_path_loop files p (Suc i) (numbered p (Suc i)) = Some (numbered p k)"
    using Suc.hyps(1) [of "Suc i"] Suc.hyps(2) Suc.prems lt by simp
  then show ?case
    using occ nx by (subst check_path_loop.simps) simp
qed

lemma check_path_first_free:
  assumes "finite files" "suffix ''.jpg'' p"
  shows "\<exists>k. check_path files p = Some (numbered p k) \<and> numbered p k \<notin> files
    \<and> (\<forall>j < k. numbered p j \<in> files)"
proof -
  define k where "k = (LEAST k. numbered p k \<notin> files)"
  have free: "numbered p k \<notin> files"
    unfolding k_def using some_name_is_free [OF assms] by (rule LeastI_ex)
  have occ: "\<forall>j < k. numbered p j \<in> files"
    unfolding k_def using not_less_Least by blast
  have "check_path_loop files p 0 (numbered p 0) = Some (numbered p k)"
    using free occ by (intro check_path_loop_first_free) simp_all
  then have "check_path files p = Some (numbered p k)"
    by (simp add: check_path_def numbered_def)
  then show ?thesis using free occ by blast
qed

lemma jpg_straddle:
  "''.jpg'' = (c # cs) @ us \<Longrightarrow> prefix us ''.jpg'' \<Longrightarrow> us = []"
  by (auto simp: Cons_eq_append_conv prefix_Cons)

lemma replace_scan_only_extension:
  "\<not> sublist ''.jpg'' stem \<Longrightarrow> replace_scan (stem @ ''.jpg'') ''.jpg'' new = stem @ new"
proof (induction stem)
  case Nil
  then show ?case by simp
next
  case (Cons c cs)
  then have np: "\<not> prefix ''.jpg'' (c # cs)" and ns: "\<not> sublist ''.jpg'' cs"
    by (simp_all add: sublist_Cons_right)
  have "\<not> prefix ''.jpg'' ((c # cs) @ ''.jpg'')"
  proof
    assume "prefix ''.jpg'' ((c # cs) @ ''.jpg'')"
    then have "prefix ''.jpg'' (c # cs) \<or> (\<exists>us. ''.jpg'' = (c # cs) @ us \<and> prefix us ''.jpg'')"
      by (simp only: prefix_append)
    with np obtain us where us: "''.jpg'' = (c # cs) @ us" "prefix us ''.jpg''" by blast
    from jpg_straddle [OF us] us(1) have "c # cs = ''.jpg''" by simp
    with np show False by simp
  qed
  then have "replace_scan ((c # cs) @ ''.jpg'') ''.jpg'' new
      = c # replace_scan (cs @ ''.jpg'') ''.jpg'' new"
    by auto
  then show ?case using Cons.IH [OF ns] by simp
qed

lemma numbered_only_extension:
  "\<not> str_in ''.jpg'' stem \<Longrightarrow> 0 < i \<Longrightarrow>
   numbered (stem @ ''.jpg'') i = stem @ '' ('' @ str_of_nat i @ '').jpg''"
  by (simp add: numbered_def str_replace_def str_in_def replace_scan_only_extension)

lemma path_join_suffix: "suffix b (path_join a b)"
  by (simp add: path_join_def suffix_def)

lemma generate_path_first_free:
  assumes "finite files" "\<not> cfg_overwrite g"
  shows "\<exists>k. generate_path g e files c path nm art =
        Some (numbered (path_join path
          (naming_convention g e nm art (str_upper e (Card_set c)) (Card_number c) @ ''.jpg'')) k)
    \<and> numbered (path_join path
          (naming_convention g e nm art (str_upper e (Card_set c)) (Card_number c) @ ''.jpg'')) k
        \<notin> files
    \<and> (\<forall>j < k. numbered (path_join path
          (naming_convention g e nm art (str_upper e (Card_set c)) (Card_number c) @ ''.jpg'')) j
        \<in> files)"
proof -
  let ?p = "path_join path
          (naming_convention g e nm art (str_upper e (Card_set c)) (Card_number c) @ ''.jpg'')"
  have "suffix ''.jpg'' ?p"
    using path_join_suffix [of "naming_convention g e nm art (str_upper e (Card_set c)) (Card_number c) @ ''.jpg''" path]
    by (meson suffix_order.order_trans suffixI)
  from check_path_first_free [OF assms(1) this] show ?thesis
    using assms(2) by (simp add: generate_path_def Let_def)
qed

lemma naming_Card: "naming_convention cfg_name env0 ''Card'' '''' (str_upper env0 (Card_set card0))
    (Card_number card0) = ''Card''"
  by (simp add: naming_convention_def cfg_name_def cfg0_def env0_def str_replace_def)

lemma cfg_name_overwrite: "\<not> cfg_overwrite cfg_name"
  by (simp add: cfg_name_def cfg0_def)

lemma generate_path_example:
  "generate_path cfg_name env0 {''Card.jpg''} card0 '''' ''Card'' '''' = Some ''Card (1).jpg''
   \<and> generate_path cfg_name env0 {''Card.jpg'', ''Card (1).jpg''} card0 '''' ''Card'' ''''
       = Some ''Card (2).jpg''"
  unfolding generate_path_def Let_def naming_Card
  by (simp add: cfg_name_overwrite path_join_def
      check_path_def check_path_loop.simps str_replace_def str_of_nat.simps digit_char_def)

text \<open>
  The counter goes before every \<open>.jpg\<close> of the path, as \<open>str.replace\<close> does: a folder
  whose name contains \<open>.jpg\<close> is renamed in the result as well.
\<close>

lemma generate_path_renames_folder:
  "generate_path cfg_name env0 {''/home/u/cards.jpg/Card.jpg''} card0 ''/home/u/cards.jpg''
      ''Card'' '''' = Some ''/home/u/cards (1).jpg/Card (1).jpg''"
  unfolding generate_path_def Let_def naming_Card
  by (simp add: cfg_name_overwrite path_join_def suffix_to_prefix
      check_path_def check_path_loop.simps str_replace_def str_of_nat.simps digit_char_def)

text \<open>
  C9. With the overwrite flag unset, \<open>generate_path\<close> returns the first name that no
  file has among the names \<open>numbered p 0\<close>, \<open>numbered p 1\<close>, \<open>numbered p 2\<close>, ... tried in
  this order, where \<open>p\<close> is the intended path: \<open>numbered p 0\<close> is \<open>p\<close> itself, every
  name before the returned one exists, and none is skipped. The loop ends, the files being
  finitely many. For a path whose only \<open>.jpg\<close> is its extension, \<open>numbered p i\<close> is
  the path with \<open> (i)\<close> put before the extension, \<open>i\<close> in decimal, so that different
  counters give different names. With a file \<open>Card.jpg\<close>, a first request gives
  \<open>Card (1).jpg\<close> and, once that file exists, a second one gives \<open>Card (2).jpg\<close>.
\<close>

theorem generate_path_numbering:
  "(let p = path_join path
          (naming_convention g e nm art (str_upper e (Card_set c)) (Card_number c) @ ''.jpg'')
    in numbered p 0 = p
     \<and> (finite files \<and> \<not> cfg_overwrite g \<longrightarrow>
          (\<exists>k. generate_path g e files c path nm art = Some (numbered p k)
             \<and> numbered p k \<notin> files
             \<and> (\<forall>j < k. numbered p j \<in> files))))
   \<and> (\<forall>stem i. \<not> str_in ''.jpg'' stem \<and> 0 < i \<longrightarrow>
         numbered (stem @ ''.jpg'') i = stem @ '' ('' @ str_of_nat i @ '').jpg'')
   \<and> (\<forall>i j. str_of_nat i = str_of_nat j \<longrightarrow> i = j)"
proof -
  let ?p = "path_join path
          (naming_convention g e nm art (str_upper e (Card_set c)) (Card_number c) @ ''.jpg'')"
  have a: "numbered ?p 0 = ?p" by (simp add: numbered_def)
  have b: "finite files \<and> \<not> cfg_overwrite g \<longrightarrow>
          (\<exists>k. generate_path g e files c path nm art = Some (numbered ?p k)
             \<and> numbered ?p k \<notin> files
             \<and> (\<forall>j < k. numbered ?p j \<in> files))"
    using generate_path_first_free [of files g e c path nm art] by blast
  have d: "\<forall>stem i. \<not> str_in ''.jpg'' stem \<and> 0 < i \<longrightarrow>
         numbered (stem @ ''.jpg'') i = stem @ '' ('' @ str_of_nat i @ '').jpg''"
    using numbered_only_extension by blast
  have f: "\<forall>i j. str_of_nat i = str_of_nat j \<longrightarrow> i = j"
    using str_of_nat_inj by blast
  show ?thesis
    unfolding Let_def using a b d f by (intro conjI)
qed

lemma numbered_Card:
  "numbered ''Card.jpg'' 0 = ''Card.jpg''"
  "numbered ''Card.jpg'' 1 = ''Card (1).jpg''"
  "numbered ''Card.jpg'' 2 = ''Card (2).jpg''"
  by (simp_all add: numbered_def str_replace_def str_of_nat.simps digit_char_def)

lemma path_join_Card: "path_join '''' (''Card'' @ ''.jpg'') = ''Card.jpg''"
  by (simp add: path_join_def)

theorem generate_path_numbering_witness:
  "generate_path cfg_name env0 {''Card.jpg''} card0 '''' ''Card'' '''' = Some ''Card (1).jpg''
   \<and> generate_path cfg_name env0 {''Card.jpg'', ''Card (1).jpg''} card0 '''' ''Card'' ''''
       = Some ''Card (2).jpg''"
proof -
  have first: "generate_path cfg_name env0 {''Card.jpg''} card0 '''' ''Card'' ''''
      = Some ''Card (1).jpg''"
  proof -
    from generate_path_numbering [of "''''" cfg_name env0 "''Card''" "''''" card0 "{''Card.jpg''}"]
    obtain k where k: "generate_path cfg_name env0 {''Card.jpg''} card0 '''' ''Card'' ''''
          = Some (numbered ''Card.jpg'' k)"
        "numbered ''Card.jpg'' k \<notin> {''Card.jpg''}"
        "\<forall>j < k. numbered ''Card.jpg'' j \<in> {''Card.jpg''}"
      unfolding Let_def naming_Card path_join_Card
      using cfg_name_overwrite by auto
    have "k \<noteq> 0"
    proof
      assume "k = 0"
      with k(2) show False by (simp add: numbered_Card)
    qed
    moreover have "\<not> 1 < k"
    proof
      assume "1 < k"
      with k(3) have "numbered ''Card.jpg'' 1 \<in> {''Card.jpg''}" by blast
      then show False unfolding numbered_Card by simp
    qed
    ultimately have "k = 1" by simp
    then show ?thesis using k(1) numbered_Card(2) by simp
  qed
  have second: "generate_path cfg_name env0 {''Card.jpg'', ''Card (1).jpg''} card0 '''' ''Card'' ''''
      = Some ''Card (2).jpg''"
  proof -
    from generate_path_numbering [of "''''" cfg_name env0 "''Card''" "''''" card0
        "{''Card.jpg'', ''Card (1).jpg''}"]
    obtain k where k: "generate_path cfg_name env0 {''Card.jpg'', ''Card (1).jpg''} card0 ''''
          ''Card'' '''' = Some (numbered ''Card.jpg'' k)"
        "numbered ''Card.jpg'' k \<notin> {''Card.jpg'', ''Card (1).jpg''}"
        "\<forall>j < k. numbered ''Card.jpg'' j \<in> {''Card.jpg'', ''Card (1).jpg''}"
      unfolding Let_def naming_Card path_join_Card
      using cfg_name_overwrite by auto
    have "k \<noteq> 0"
    proof
      assume "k = 0"
      with k(2) show False by (simp add: numbered_Card)
    qed
    moreover have "k \<noteq> 1"
    proof
      assume "k = 1"
      with k(2) have "numbered ''Card.jpg'' 1 \<notin> {''Card.jpg'', ''Card (1).jpg''}" by simp
      then show False unfolding numbered_Card by simp
    qed
    moreover have "\<not> 2 < k"
    proof
      assume "2 < k"
      with k(3) have "numbered ''Card.jpg'' 2 \<in> {''Card.jpg'', ''Card (1).jpg''}" by blast
      then show False unfolding numbered_Card by simp
    qed
    ultimately have "k = 2" by simp
    then show ?thesis using k(1) numbered_Card(3) by simp
  qed
  show ?thesis using first second by (simp only: simp_thms)
qed

subsection \<open>C10: the archive filter\<close>









lemma renders_two_names:
  "get_card_class c \<in> {Adventure, Flip} \<Longrightarrow> face_field c 0 f_name = Inr n \<Longrightarrow>
   renders c = Inr [if truthy n then n else Card_name c]"
  by (auto simp: renders_def Let_def getattr_name_saved_def getattr_name_back_def name_def
      bind_sum_def truthy_opt_def is_MDFC_def)








end
